theory Spec2Isabelle
  imports Main "HOL-Library.AList"
begin

section \<open>JavaScript values, strings and object literals\<close>

text \<open>
  The program is one script, \<^verbatim>\<open>app.js\<close>: a text adventure whose state is the
  variables \<^verbatim>\<open>gameRunning\<close>, \<^verbatim>\<open>player\<close> and \<^verbatim>\<open>rooms\<close>, a constant table
  \<^verbatim>\<open>items\<close>, and a few elements of the page. Strings are lists of code units; the
  model is exact for code units below 256 (\<^typ>\<open>char\<close>), which covers every literal of
  the script.

  A property read \<^verbatim>\<open>obj[k]\<close> on an object literal finds the literal's own property,
  else the property of that name of \<^verbatim>\<open>Object.prototype\<close>, else \<^verbatim>\<open>undefined\<close>.
  The inherited properties are functions (for \<^verbatim>\<open>__proto__\<close> the prototype object
  itself), kept here by name.
\<close>

datatype jsval = Undefined | Str string | Builtin string

definition object_prototype_keys :: "string list" where
  "object_prototype_keys =
     [''constructor'', ''hasOwnProperty'', ''isPrototypeOf'', ''propertyIsEnumerable'',
      ''toLocaleString'', ''toString'', ''valueOf'', ''__proto__'',
      ''__defineGetter__'', ''__defineSetter__'', ''__lookupGetter__'', ''__lookupSetter__'']"

type_synonym obj = "(string \<times> string) list"

definition getprop :: "obj \<Rightarrow> string \<Rightarrow> jsval" where
  "getprop ob k =
     (case map_of ob k of
        Some v \<Rightarrow> Str v
      | None \<Rightarrow> if k \<in> set object_prototype_keys then Builtin k else Undefined)"

fun truthy :: "jsval \<Rightarrow> bool" where
  "truthy Undefined = False"
| "truthy (Str v) = (v \<noteq> [])"
| "truthy (Builtin k) = True"

text \<open>The result of reading a key of a table whose values are objects.\<close>

datatype 'a lookup = Own 'a | Inherited string | Absent

text \<open>
  A fault ends the event handler. \<open>TypeError\<close> is a property read on
  \<^verbatim>\<open>undefined\<close>. \<open>Builtin_deref k\<close> marks the place where the script would go on
  with the built-in \<open>k\<close> of \<^verbatim>\<open>Object.prototype\<close> where it expects a room or an item;
  the model stops there.
\<close>

datatype fault = TypeError | Builtin_deref string

text \<open>
  \<^verbatim>\<open>trim\<close> removes white space and line terminators at both ends: below 256
  these are the code units 9 to 13, 32 and 160.
\<close>

definition is_ws :: "char \<Rightarrow> bool" where
  "is_ws c = (c \<in> set [CHR 0x09, CHR 0x0A, CHR 0x0B, CHR 0x0C, CHR 0x0D, CHR 0x20, CHR 0xA0])"

definition trim :: "string \<Rightarrow> string" where
  "trim s = rev (dropWhile is_ws (rev (dropWhile is_ws s)))"

text \<open>
  \<^verbatim>\<open>toLowerCase\<close>: below 256 the upper-case letters are A to Z and the code units
  192 to 222 without 215; each maps to the code unit 32 above it.
\<close>

definition upper_chars :: string where
  "upper_chars = ''ABCDEFGHIJKLMNOPQRSTUVWXYZ'' @
     [CHR 0xC0, CHR 0xC1, CHR 0xC2, CHR 0xC3, CHR 0xC4, CHR 0xC5, CHR 0xC6, CHR 0xC7,
      CHR 0xC8, CHR 0xC9, CHR 0xCA, CHR 0xCB, CHR 0xCC, CHR 0xCD, CHR 0xCE, CHR 0xCF,
      CHR 0xD0, CHR 0xD1, CHR 0xD2, CHR 0xD3, CHR 0xD4, CHR 0xD5, CHR 0xD6, CHR 0xD8,
      CHR 0xD9, CHR 0xDA, CHR 0xDB, CHR 0xDC, CHR 0xDD, CHR 0xDE]"

definition lower_chars :: string where
  "lower_chars = ''abcdefghijklmnopqrstuvwxyz'' @
     [CHR 0xE0, CHR 0xE1, CHR 0xE2, CHR 0xE3, CHR 0xE4, CHR 0xE5, CHR 0xE6, CHR 0xE7,
      CHR 0xE8, CHR 0xE9, CHR 0xEA, CHR 0xEB, CHR 0xEC, CHR 0xED, CHR 0xEE, CHR 0xEF,
      CHR 0xF0, CHR 0xF1, CHR 0xF2, CHR 0xF3, CHR 0xF4, CHR 0xF5, CHR 0xF6, CHR 0xF8,
      CHR 0xF9, CHR 0xFA, CHR 0xFB, CHR 0xFC, CHR 0xFD, CHR 0xFE]"

definition lower_char :: "char \<Rightarrow> char" where
  "lower_char c = (case map_of (zip upper_chars lower_chars) c of Some d \<Rightarrow> d | None \<Rightarrow> c)"

definition toLowerCase :: "string \<Rightarrow> string" where
  "toLowerCase s = map lower_char s"

text \<open>\<^verbatim>\<open>s.split(' ')\<close>: cut at every single space; never the empty array.\<close>

fun split_sp :: "string \<Rightarrow> string list" where
  "split_sp [] = [] # []"
| "split_sp (c # cs) =
     (if c = CHR '' '' then [] # split_sp cs
      else (case split_sp cs of [] \<Rightarrow> [c] # [] | w # ws \<Rightarrow> (c # w) # ws))"

text \<open>\<^verbatim>\<open>parts.join(' ')\<close>.\<close>

fun join :: "string list \<Rightarrow> string" where
  "join [] = []"
| "join [x] = x"
| "join (x # y # ys) = x @ '' '' @ join (y # ys)"

text \<open>An array element read by position, \<^verbatim>\<open>undefined\<close> past the end.\<close>

definition elem :: "'a list \<Rightarrow> nat \<Rightarrow> 'a option" where
  "elem xs n = (if n < length xs then Some (xs ! n) else None)"

section \<open>Game state and game data\<close>

record room =
  name :: string
  description :: string
  exits :: obj
  items :: "string list"
  blockedExits :: obj

record rooms_obj =
  cell :: room
  hallway :: room
  armory :: room

record player_obj =
  currentRoom :: jsval
  inventory :: "string list"

text \<open>
  The page elements the script touches: whether the start button and the input area
  carry the class \<^verbatim>\<open>hidden\<close>, the paragraphs of the output console (text and class
  name), and the value of the command input.
\<close>

record state =
  gameRunning :: bool
  player :: player_obj
  rooms :: rooms_obj
  startButton_hidden :: bool
  inputArea_hidden :: bool
  outputConsole :: "(jsval \<times> string) list"
  commandInput :: string

record item =
  item_name :: string
  item_description :: string
  canTake :: bool
  onExamine :: "(state \<Rightarrow> state \<times> string) option"

definition initial_rooms :: rooms_obj where
  "initial_rooms =
     \<lparr>cell = \<lparr>name = ''Dank Cell'',
              description = ''You are in a cold, stone cell. A single torch flickers on the wall, casting long shadows. The iron door to the north is barred shut. There is a pile of straw in the corner and a loose stone on the floor.'',
              exits = [(''north'', ''hallway'')],
              items = [''stone''],
              blockedExits = [(''north'', ''The door is barred from the other side.'')]\<rparr>,
      hallway = \<lparr>name = ''Dim Hallway'',
              description = ''You stand in a narrow hallway. The cell door is to the south. To the east is a heavy wooden door with a small, rusty lock. To the west, the hallway ends in a pile of rubble.'',
              exits = [(''south'', ''cell''), (''east'', ''armory'')],
              items = [],
              blockedExits = [(''east'', ''The door is locked.'')]\<rparr>,
      armory = \<lparr>name = ''Dusty Armory'',
              description = ''This was once an armory. Racks that held weapons are now empty, save for a single, gleaming sword lying on a stone pedestal.'',
              exits = [(''west'', ''hallway'')],
              items = [''sword''],
              blockedExits = []\<rparr>\<rparr>"

text \<open>
  The state when the script has loaded. The page's markup is not part of the script, so
  what the page shows then is a parameter.
\<close>

definition initial_state :: "bool \<Rightarrow> bool \<Rightarrow> (jsval \<times> string) list \<Rightarrow> string \<Rightarrow> state" where
  "initial_state sb ia out v =
     \<lparr>gameRunning = False,
      player = \<lparr>currentRoom = Str ''cell'', inventory = []\<rparr>,
      rooms = initial_rooms,
      startButton_hidden = sb, inputArea_hidden = ia, outputConsole = out,
      commandInput = v\<rparr>"

definition stone_onExamine :: "state \<Rightarrow> state \<times> string" where
  "stone_onExamine s =
     (if ''key'' \<notin> set (inventory (player s)) \<and> ''key'' \<notin> set (items (cell (rooms s)))
      then (s\<lparr>rooms := (rooms s)\<lparr>cell := (cell (rooms s))\<lparr>items := items (cell (rooms s)) @ [''key'']\<rparr>\<rparr>\<rparr>,
            ''You lift the stone and find a small, rusty key!'')
      else (s, ''It's just a stone. You already found the key that was under it.''))"

definition items_table :: "(string \<times> item) list" where
  "items_table =
     [(''stone'', \<lparr>item_name = ''Loose Stone'',
                  item_description = ''A fist-sized stone. You notice a small, rusty key hidden in the cavity beneath it.'',
                  canTake = False,
                  onExamine = Some stone_onExamine\<rparr>),
      (''key'', \<lparr>item_name = ''Rusty Key'',
                item_description = ''A small, simple key. It looks like it might fit the lock on the armory door.'',
                canTake = True,
                onExamine = None\<rparr>),
      (''sword'', \<lparr>item_name = ''Gleaming Sword'',
                  item_description = ''A beautiful, sharp sword. It feels powerful in your hands. Perhaps you could break something with it?'',
                  canTake = True,
                  onExamine = None\<rparr>)]"

text \<open>\<^verbatim>\<open>items[k]\<close> and \<^verbatim>\<open>rooms[k]\<close>.\<close>

definition items_get :: "string \<Rightarrow> item lookup" where
  "items_get k =
     (case map_of items_table k of
        Some it \<Rightarrow> Own it
      | None \<Rightarrow> if k \<in> set object_prototype_keys then Inherited k else Absent)"

fun rooms_get :: "rooms_obj \<Rightarrow> jsval \<Rightarrow> room lookup" where
  "rooms_get r (Str k) =
     (if k = ''cell'' then Own (cell r)
      else if k = ''hallway'' then Own (hallway r)
      else if k = ''armory'' then Own (armory r)
      else if k \<in> set object_prototype_keys then Inherited k else Absent)"
| "rooms_get r Undefined = Absent"
| "rooms_get r (Builtin k) = Absent"

text \<open>
  \<^verbatim>\<open>const room = rooms[player.currentRoom]\<close> followed by a property read on
  \<^verbatim>\<open>room\<close>, as look, move, take and examine begin.
\<close>

definition current_room :: "state \<Rightarrow> fault + room" where
  "current_room s =
     (case rooms_get (rooms s) (currentRoom (player s)) of
        Own r \<Rightarrow> Inr r
      | Inherited k \<Rightarrow> Inl (Builtin_deref k)
      | Absent \<Rightarrow> Inl TypeError)"

text \<open>
  \<^verbatim>\<open>room\<close> is a reference into \<^verbatim>\<open>rooms\<close>: an assignment to \<^verbatim>\<open>room.items\<close>
  changes the room stored under the current key.
\<close>

fun rooms_put :: "rooms_obj \<Rightarrow> jsval \<Rightarrow> room \<Rightarrow> rooms_obj" where
  "rooms_put r (Str k) x =
     (if k = ''cell'' then r\<lparr>cell := x\<rparr>
      else if k = ''hallway'' then r\<lparr>hallway := x\<rparr>
      else if k = ''armory'' then r\<lparr>armory := x\<rparr>
      else r)"
| "rooms_put r Undefined x = r"
| "rooms_put r (Builtin k) x = r"

section \<open>Game functions\<close>

definition print :: "jsval \<Rightarrow> string \<Rightarrow> state \<Rightarrow> state" where
  "print text className s = s\<lparr>outputConsole := outputConsole s @ [(text, className)]\<rparr>"

definition look :: "state \<Rightarrow> fault + state" where
  "look s =
     (case current_room s of
        Inl e \<Rightarrow> Inl e
      | Inr room \<Rightarrow>
          Inr (print (Str (description room)) ''''
                (print (Str (name room)) ''text-cyan-400 text-lg'' s)))"

definition startGame :: "state \<Rightarrow> fault + state" where
  "startGame s =
     look (print (Str ''---'') ''''
            (print (Str ''Executing DungeonEscape.java...'') ''text-yellow-400''
              (s\<lparr>gameRunning := True, startButton_hidden := True,
                 inputArea_hidden := False, outputConsole := []\<rparr>)))"

definition move :: "string \<Rightarrow> state \<Rightarrow> fault + state" where
  "move direction s =
     (case current_room s of
        Inl e \<Rightarrow> Inl e
      | Inr room \<Rightarrow>
          if truthy (getprop (exits room) direction) then
            if truthy (getprop (blockedExits room) direction) then
              Inr (print (getprop (blockedExits room) direction) ''text-yellow-400'' s)
            else
              look (s\<lparr>player := (player s)\<lparr>currentRoom := getprop (exits room) direction\<rparr>\<rparr>)
          else Inr (print (Str ''You can't go that way.'') ''text-red-400'' s))"

definition take :: "string \<Rightarrow> state \<Rightarrow> fault + state" where
  "take itemName s =
     (case current_room s of
        Inl e \<Rightarrow> Inl e
      | Inr room \<Rightarrow>
          if itemName \<in> set (items room) then
            (case items_get itemName of
               Absent \<Rightarrow> Inl TypeError
             | Inherited k \<Rightarrow> Inl (Builtin_deref k)
             | Own it \<Rightarrow>
                 if canTake it then
                   Inr (print (Str (''You take the '' @ item_name it @ ''.'')) ''''
                         (s\<lparr>player := (player s)\<lparr>inventory := inventory (player s) @ [itemName]\<rparr>,
                            rooms := rooms_put (rooms s) (currentRoom (player s))
                                       (room\<lparr>items := filter (\<lambda>i. i \<noteq> itemName) (items room)\<rparr>)\<rparr>))
                 else Inr (print (Str ''You can't take that.'') ''text-red-400'' s))
          else Inr (print (Str ''You can't take that.'') ''text-red-400'' s))"

definition examine :: "string \<Rightarrow> state \<Rightarrow> fault + state" where
  "examine itemName s =
     (case current_room s of
        Inl e \<Rightarrow> Inl e
      | Inr room \<Rightarrow>
          if itemName \<in> set (items room) \<or> itemName \<in> set (inventory (player s)) then
            (case items_get itemName of
               Absent \<Rightarrow> Inl TypeError
             | Inherited k \<Rightarrow> Inl (Builtin_deref k)
             | Own it \<Rightarrow>
                 (case onExamine it of
                    None \<Rightarrow> Inr (print (Str (item_description it)) '''' s)
                  | Some f \<Rightarrow>
                      (case f (print (Str (item_description it)) '''' s) of
                         (s', result) \<Rightarrow>
                           Inr (if result \<noteq> [] then print (Str result) ''text-green-400'' s'
                                else s'))))
          else Inr (print (Str ''You don't see that here.'') ''text-red-400'' s))"

text \<open>The \<^verbatim>\<open>forEach\<close> of showInventory.\<close>

fun print_carried :: "string list \<Rightarrow> state \<Rightarrow> fault + state" where
  "print_carried [] s = Inr s"
| "print_carried (itemName # rest) s =
     (case items_get itemName of
        Absent \<Rightarrow> Inl TypeError
      | Inherited k \<Rightarrow> Inl (Builtin_deref k)
      | Own it \<Rightarrow> print_carried rest (print (Str (''- '' @ item_name it)) '''' s))"

definition showInventory :: "state \<Rightarrow> fault + state" where
  "showInventory s =
     (if length (inventory (player s)) = 0
      then Inr (print (Str ''You are not carrying anything.'') '''' s)
      else print_carried (inventory (player s)) (print (Str ''You are carrying:'') '''' s))"

text \<open>
  \<^verbatim>\<open>const [itemToUse, , target] = command.split(' ')\<close>: the first and the third
  part, the second unread.
\<close>

definition use :: "string \<Rightarrow> state \<Rightarrow> state" where
  "use command s =
     (let itemToUse = elem (split_sp command) 0;
          target = elem (split_sp command) 2
      in if \<not> (case itemToUse of None \<Rightarrow> False | Some i \<Rightarrow> i \<in> set (inventory (player s)))
         then print (Str ''You don't have that.'') ''text-red-400'' s
         else if itemToUse = Some ''key'' \<and> target = Some ''door''
                 \<and> currentRoom (player s) = Str ''hallway''
         then print (Str ''The key fits! You unlock the armory door with a loud *click*.'')
                ''text-green-400''
                (s\<lparr>rooms := (rooms s)\<lparr>hallway := (hallway (rooms s))
                      \<lparr>blockedExits := AList.delete ''east'' (blockedExits (hallway (rooms s)))\<rparr>\<rparr>\<rparr>)
         else if itemToUse = Some ''sword'' \<and> target = Some ''door''
                 \<and> currentRoom (player s) = Str ''cell''
         then (print (Str ''You have escaped the dungeon!'') ''text-yellow-400 font-bold text-lg''
                (print (Str ''You swing the sword with all your might and shatter the wooden bar on the other side of the door!'')
                  ''text-green-400''
                  (s\<lparr>rooms := (rooms s)\<lparr>cell := (cell (rooms s))
                        \<lparr>blockedExits := AList.delete ''north'' (blockedExits (cell (rooms s)))\<rparr>\<rparr>\<rparr>)))
              \<lparr>gameRunning := False, inputArea_hidden := True\<rparr>
         else print (Str ''You can't use that like that.'') ''text-red-400'' s)"

text \<open>
  \<^verbatim>\<open>const [verb, ...nounParts] = commandText.split(' '); noun = nounParts.join(' ')\<close>.
  The verb of an empty array would be \<^verbatim>\<open>undefined\<close>.
\<close>

definition parse :: "string \<Rightarrow> string option \<times> string" where
  "parse commandText =
     (case split_sp commandText of
        [] \<Rightarrow> (None, [])
      | verb # nounParts \<Rightarrow> (Some verb, join nounParts))"

text \<open>The \<^verbatim>\<open>switch (verb)\<close> of processCommand.\<close>

definition switch_verb :: "string option \<Rightarrow> string \<Rightarrow> state \<Rightarrow> fault + state" where
  "switch_verb verb noun s =
     (if verb = Some ''look'' \<or> verb = Some ''l'' then look s
      else if verb = Some ''go'' \<or> verb = Some ''move'' then move noun s
      else if verb = Some ''take'' \<or> verb = Some ''get'' then take noun s
      else if verb = Some ''examine'' \<or> verb = Some ''x'' then examine noun s
      else if verb = Some ''inventory'' \<or> verb = Some ''i'' then showInventory s
      else if verb = Some ''use'' then Inr (use noun s)
      else Inr (print (Str ''I don't understand that command.'') ''text-red-400'' s))"

text \<open>processCommand reads the value of the command input, \<^verbatim>\<open>commandInput.value\<close>.\<close>

definition processCommand :: "state \<Rightarrow> fault + state" where
  "processCommand s =
     (let commandText = toLowerCase (trim (commandInput s))
      in if commandText = [] then Inr s
         else (case parse commandText of
                 (verb, noun) \<Rightarrow>
                   switch_verb verb noun
                     ((print (Str (''> '' @ commandText)) ''text-gray-500'' s)
                        \<lparr>commandInput := []\<rparr>)))"

text \<open>
  The player types \<open>v\<close> into the command input and submits it (the click on the submit
  button, or the Enter key).
\<close>

definition submit :: "string \<Rightarrow> state \<Rightarrow> fault + state" where
  "submit v s = processCommand (s\<lparr>commandInput := v\<rparr>)"

section \<open>Sessions, reachable states and the properties stated about them\<close>

text \<open>A sequence of submitted inputs, ended by the first fault.\<close>

fun run :: "string list \<Rightarrow> state \<Rightarrow> fault + state" where
  "run [] s = Inr s"
| "run (v # vs) s = (case submit v s of Inl e \<Rightarrow> Inl e | Inr s' \<Rightarrow> run vs s')"

text \<open>
  The states the script can be in: the state after loading, and the states the two event
  handlers lead to, startGame from the start button and processCommand with any input.
\<close>

inductive reachable :: "state \<Rightarrow> bool" where
  loaded: "reachable (initial_state sb ia out v)"
| started: "reachable s \<Longrightarrow> startGame s = Inr s' \<Longrightarrow> reachable s'"
| submitted: "reachable s \<Longrightarrow> submit v s = Inr s' \<Longrightarrow> reachable s'"

text \<open>Every place an item identifier can be in: the three rooms, then the inventory.\<close>

definition locations :: "state \<Rightarrow> string list" where
  "locations s =
     items (cell (rooms s)) @ items (hallway (rooms s)) @ items (armory (rooms s))
       @ inventory (player s)"

text \<open>
  The shape of the data that the script relies on without checking it: the current room
  is one of the three rooms, the exits are those of the game data, an exit is blocked
  only where the game data blocks it, and every identifier in a room or in the inventory
  is an item of the table.
\<close>

definition well_formed :: "state \<Rightarrow> bool" where
  "well_formed s =
     (currentRoom (player s) \<in> set [Str ''cell'', Str ''hallway'', Str ''armory'']
      \<and> exits (cell (rooms s)) = exits (cell initial_rooms)
      \<and> exits (hallway (rooms s)) = exits (hallway initial_rooms)
      \<and> exits (armory (rooms s)) = exits (armory initial_rooms)
      \<and> set (blockedExits (cell (rooms s))) \<subseteq> set (blockedExits (cell initial_rooms))
      \<and> set (blockedExits (hallway (rooms s))) \<subseteq> set (blockedExits (hallway initial_rooms))
      \<and> set (blockedExits (armory (rooms s))) \<subseteq> set (blockedExits (armory initial_rooms))
      \<and> set (locations s) \<subseteq> set (map fst items_table))"

text \<open>Whether \<^verbatim>\<open>items[k].canTake\<close> is true.\<close>

definition takeable :: "string \<Rightarrow> bool" where
  "takeable k = (case items_get k of Own it \<Rightarrow> canTake it | Inherited b \<Rightarrow> False | Absent \<Rightarrow> False)"

text \<open>The input is an examine command whose noun is the stone.\<close>

definition examines_stone :: "string \<Rightarrow> bool" where
  "examines_stone v =
     (parse (toLowerCase (trim v)) \<in> set [(Some ''examine'', ''stone''), (Some ''x'', ''stone'')])"

text \<open>
  The parser as the specification words it: the tokens are the maximal runs of
  characters that are not white space; the verb is the first token and the noun the
  other tokens joined by single spaces, all in lower case.
\<close>

fun split_ws :: "string \<Rightarrow> string list" where
  "split_ws [] = [] # []"
| "split_ws (c # cs) =
     (if is_ws c then [] # split_ws cs
      else (case split_ws cs of [] \<Rightarrow> [c] # [] | w # ws \<Rightarrow> (c # w) # ws))"

definition tokens :: "string \<Rightarrow> string list" where
  "tokens s = filter (\<lambda>w. w \<noteq> []) (split_ws s)"

definition spec_parse :: "string \<Rightarrow> (string \<times> string) option" where
  "spec_parse v =
     (case tokens (toLowerCase v) of
        [] \<Rightarrow> None
      | verb # nounParts \<Rightarrow> Some (verb, join nounParts))"

text \<open>
  A state used as a concrete input below: in the hallway, holding the key and the sword.
\<close>

definition example_hallway :: state where
  "example_hallway =
     (initial_state True False [] [])
       \<lparr>gameRunning := True,
        player := \<lparr>currentRoom = Str ''hallway'', inventory = [''key'', ''sword'']\<rparr>\<rparr>"

text \<open>
  A state used as a concrete input below: in the cell, the key lying next to the stone.
\<close>

definition example_key_revealed :: state where
  "example_key_revealed =
     (initial_state True False [] [])
       \<lparr>gameRunning := True,
        rooms := initial_rooms\<lparr>cell := (cell initial_rooms)\<lparr>items := [''stone'', ''key'']\<rparr>\<rparr>\<rparr>"


text \<open>
  The three assignments to room data outside take: the push of the stone's examine
  effect and the two deletions of use.
\<close>

definition reveal_key :: "rooms_obj \<Rightarrow> rooms_obj" where
  "reveal_key r = r\<lparr>cell := (cell r)\<lparr>items := items (cell r) @ [''key'']\<rparr>\<rparr>"

definition unblock_east :: "rooms_obj \<Rightarrow> rooms_obj" where
  "unblock_east r =
     r\<lparr>hallway := (hallway r)\<lparr>blockedExits := AList.delete ''east'' (blockedExits (hallway r))\<rparr>\<rparr>"

definition unblock_north :: "rooms_obj \<Rightarrow> rooms_obj" where
  "unblock_north r =
     r\<lparr>cell := (cell r)\<lparr>blockedExits := AList.delete ''north'' (blockedExits (cell r))\<rparr>\<rparr>"

text \<open>
  The player is in the cell without the sword, the sword is not in the cell, and the
  cell's exit is barred as in the game data.
\<close>

definition barred :: "state \<Rightarrow> bool" where
  "barred s =
     (currentRoom (player s) = Str ''cell''
      \<and> exits (cell (rooms s)) = exits (cell initial_rooms)
      \<and> blockedExits (cell (rooms s)) = blockedExits (cell initial_rooms)
      \<and> ''sword'' \<notin> set (inventory (player s))
      \<and> ''sword'' \<notin> set (items (cell (rooms s))))"

text \<open>
  Modelled from the spec: the page's markup and style sheet are not among the sources.
  The specification has the session idle before the start and input accepted only while
  the session is active, and the script keeps the page in step with that through the
  class \<^verbatim>\<open>hidden\<close>: startGame hides the start button and shows the input area, the
  escape in use hides the input area again. So the page loads with the input area
  hidden, and an element that is hidden receives no click and no key: a click on the
  start button runs startGame only while the button is shown, and an input is submitted
  to processCommand only while the input area is shown; otherwise nothing happens.
\<close>

definition click_start :: "state \<Rightarrow> fault + state" where
  "click_start s = (if startButton_hidden s then Inr s else startGame s)"

definition enter_command :: "string \<Rightarrow> state \<Rightarrow> fault + state" where
  "enter_command v s = (if inputArea_hidden s then Inr s else submit v s)"

text \<open>The states the page can bring the script to.\<close>

inductive page_reachable :: "state \<Rightarrow> bool" where
  page_loaded: "page_reachable (initial_state sb True out v)"
| page_clicked: "page_reachable s \<Longrightarrow> click_start s = Inr s' \<Longrightarrow> page_reachable s'"
| page_entered: "page_reachable s \<Longrightarrow> enter_command v s = Inr s' \<Longrightarrow> page_reachable s'"

text \<open>A console entry whose content is a string, as every line of narration should be.\<close>

definition is_text :: "jsval \<Rightarrow> bool" where
  "is_text x = (case x of Str t \<Rightarrow> True | Undefined \<Rightarrow> False | Builtin k \<Rightarrow> False)"

text \<open>
  The lines the script prints for the failures of the specification's taxonomy: unknown
  verb, invalid direction, blocked exit (the two blocking messages of the game data),
  item not present or not takeable, item not held, invalid use.
\<close>

definition failure_lines :: "(jsval \<times> string) list" where
  "failure_lines =
     [(Str ''I don't understand that command.'', ''text-red-400''),
      (Str ''You can't go that way.'', ''text-red-400''),
      (Str ''The door is barred from the other side.'', ''text-yellow-400''),
      (Str ''The door is locked.'', ''text-yellow-400''),
      (Str ''You can't take that.'', ''text-red-400''),
      (Str ''You don't see that here.'', ''text-red-400''),
      (Str ''You don't have that.'', ''text-red-400''),
      (Str ''You can't use that like that.'', ''text-red-400'')]"

text \<open>From \<open>s\<close> to \<open>s'\<close> the console grew by lines of text only.\<close>

definition text_added :: "state \<Rightarrow> state \<Rightarrow> bool" where
  "text_added s s' =
     (\<exists>ls. outputConsole s' = outputConsole s @ ls \<and> list_all (\<lambda>l. is_text (fst l)) ls)"

section \<open>Basic facts\<close>

lemma split_sp_nonempty: "split_sp s \<noteq> []"
  by (induction s) (auto split: list.splits)

lemma print_fields [simp]:
  "gameRunning (print t c s) = gameRunning s"
  "player (print t c s) = player s"
  "rooms (print t c s) = rooms s"
  "startButton_hidden (print t c s) = startButton_hidden s"
  "inputArea_hidden (print t c s) = inputArea_hidden s"
  "commandInput (print t c s) = commandInput s"
  "outputConsole (print t c s) = outputConsole s @ [(t, c)]"
  by (simp_all add: print_def)

lemma getprop_delete_same:
  "k \<notin> set object_prototype_keys \<Longrightarrow> getprop (AList.delete k ob) k = Undefined"
  by (simp add: getprop_def AList.delete_conv')

lemma use_cases:
  "use command s =
     (if \<not> (case elem (split_sp command) 0 of None \<Rightarrow> False
              | Some i \<Rightarrow> i \<in> set (inventory (player s)))
      then print (Str ''You don't have that.'') ''text-red-400'' s
      else if elem (split_sp command) 0 = Some ''key'' \<and> elem (split_sp command) 2 = Some ''door''
              \<and> currentRoom (player s) = Str ''hallway''
      then print (Str ''The key fits! You unlock the armory door with a loud *click*.'')
             ''text-green-400''
             (s\<lparr>rooms := (rooms s)\<lparr>hallway := (hallway (rooms s))
                   \<lparr>blockedExits := AList.delete ''east'' (blockedExits (hallway (rooms s)))\<rparr>\<rparr>\<rparr>)
      else if elem (split_sp command) 0 = Some ''sword'' \<and> elem (split_sp command) 2 = Some ''door''
              \<and> currentRoom (player s) = Str ''cell''
      then (print (Str ''You have escaped the dungeon!'') ''text-yellow-400 font-bold text-lg''
             (print (Str ''You swing the sword with all your might and shatter the wooden bar on the other side of the door!'')
               ''text-green-400''
               (s\<lparr>rooms := (rooms s)\<lparr>cell := (cell (rooms s))
                     \<lparr>blockedExits := AList.delete ''north'' (blockedExits (cell (rooms s)))\<rparr>\<rparr>\<rparr>)))
           \<lparr>gameRunning := False, inputArea_hidden := True\<rparr>
      else print (Str ''You can't use that like that.'') ''text-red-400'' s)"
  by (simp add: use_def Let_def)

section \<open>Using an item\<close>

text \<open>
  C4. For a use command whose item token is held: with key and door in the hallway, the
  hallway's east blocking entry is removed and the success line printed, nothing else
  changing; with sword and door in the cell, the cell's north blocking entry is removed,
  the success line and the win line are printed and \<^verbatim>\<open>gameRunning\<close> becomes false;
  every other combination of item, target and room, the sword on the door in the hallway
  among them, prints the generic failure and changes nothing else.
\<close>

theorem use_held_item:
  assumes "elem (split_sp command) 0 = Some itemToUse"
    and "itemToUse \<in> set (inventory (player s))"
  shows "(itemToUse = ''key'' \<and> elem (split_sp command) 2 = Some ''door''
            \<and> currentRoom (player s) = Str ''hallway'' \<longrightarrow>
          getprop (blockedExits (hallway (rooms (use command s)))) ''east'' = Undefined
          \<and> rooms (use command s) = (rooms s)\<lparr>hallway := (hallway (rooms s))
               \<lparr>blockedExits := AList.delete ''east'' (blockedExits (hallway (rooms s)))\<rparr>\<rparr>
          \<and> player (use command s) = player s
          \<and> gameRunning (use command s) = gameRunning s
          \<and> outputConsole (use command s) = outputConsole s @
               [(Str ''The key fits! You unlock the armory door with a loud *click*.'',
                 ''text-green-400'')])
       \<and> (itemToUse = ''sword'' \<and> elem (split_sp command) 2 = Some ''door''
            \<and> currentRoom (player s) = Str ''cell'' \<longrightarrow>
          getprop (blockedExits (cell (rooms (use command s)))) ''north'' = Undefined
          \<and> rooms (use command s) = (rooms s)\<lparr>cell := (cell (rooms s))
               \<lparr>blockedExits := AList.delete ''north'' (blockedExits (cell (rooms s)))\<rparr>\<rparr>
          \<and> player (use command s) = player s
          \<and> gameRunning (use command s) = False
          \<and> outputConsole (use command s) = outputConsole s @
               [(Str ''You swing the sword with all your might and shatter the wooden bar on the other side of the door!'',
                 ''text-green-400''),
                (Str ''You have escaped the dungeon!'', ''text-yellow-400 font-bold text-lg'')])
       \<and> (\<not> (itemToUse = ''key'' \<and> elem (split_sp command) 2 = Some ''door''
                \<and> currentRoom (player s) = Str ''hallway'')
            \<and> \<not> (itemToUse = ''sword'' \<and> elem (split_sp command) 2 = Some ''door''
                \<and> currentRoom (player s) = Str ''cell'') \<longrightarrow>
          use command s = print (Str ''You can't use that like that.'') ''text-red-400'' s)"
proof (intro conjI impI)
  assume c: "itemToUse = ''key'' \<and> elem (split_sp command) 2 = Some ''door''
            \<and> currentRoom (player s) = Str ''hallway''"
  have u: "use command s = print (Str ''The key fits! You unlock the armory door with a loud *click*.'')
             ''text-green-400''
             (s\<lparr>rooms := (rooms s)\<lparr>hallway := (hallway (rooms s))
                   \<lparr>blockedExits := AList.delete ''east'' (blockedExits (hallway (rooms s)))\<rparr>\<rparr>\<rparr>)"
    using assms c by (simp add: use_cases)
  show "getprop (blockedExits (hallway (rooms (use command s)))) ''east'' = Undefined"
    by (simp add: u getprop_delete_same object_prototype_keys_def)
  show "rooms (use command s) = (rooms s)\<lparr>hallway := (hallway (rooms s))
               \<lparr>blockedExits := AList.delete ''east'' (blockedExits (hallway (rooms s)))\<rparr>\<rparr>"
    by (simp add: u)
  show "player (use command s) = player s" by (simp add: u)
  show "gameRunning (use command s) = gameRunning s" by (simp add: u)
  show "outputConsole (use command s) = outputConsole s @
               [(Str ''The key fits! You unlock the armory door with a loud *click*.'',
                 ''text-green-400'')]" by (simp add: u)
next
  assume c: "itemToUse = ''sword'' \<and> elem (split_sp command) 2 = Some ''door''
            \<and> currentRoom (player s) = Str ''cell''"
  have u: "use command s = (print (Str ''You have escaped the dungeon!'') ''text-yellow-400 font-bold text-lg''
             (print (Str ''You swing the sword with all your might and shatter the wooden bar on the other side of the door!'')
               ''text-green-400''
               (s\<lparr>rooms := (rooms s)\<lparr>cell := (cell (rooms s))
                     \<lparr>blockedExits := AList.delete ''north'' (blockedExits (cell (rooms s)))\<rparr>\<rparr>\<rparr>)))
           \<lparr>gameRunning := False, inputArea_hidden := True\<rparr>"
    using assms c by (simp add: use_cases)
  show "getprop (blockedExits (cell (rooms (use command s)))) ''north'' = Undefined"
    by (simp add: u getprop_delete_same object_prototype_keys_def)
  show "rooms (use command s) = (rooms s)\<lparr>cell := (cell (rooms s))
               \<lparr>blockedExits := AList.delete ''north'' (blockedExits (cell (rooms s)))\<rparr>\<rparr>"
    by (simp add: u)
  show "player (use command s) = player s" by (simp add: u)
  show "gameRunning (use command s) = False" by (simp add: u)
  show "outputConsole (use command s) = outputConsole s @
               [(Str ''You swing the sword with all your might and shatter the wooden bar on the other side of the door!'',
                 ''text-green-400''),
                (Str ''You have escaped the dungeon!'', ''text-yellow-400 font-bold text-lg'')]"
    by (simp add: u)
next
  assume "\<not> (itemToUse = ''key'' \<and> elem (split_sp command) 2 = Some ''door''
                \<and> currentRoom (player s) = Str ''hallway'')
            \<and> \<not> (itemToUse = ''sword'' \<and> elem (split_sp command) 2 = Some ''door''
                \<and> currentRoom (player s) = Str ''cell'')"
  then show "use command s = print (Str ''You can't use that like that.'') ''text-red-400'' s"
    using assms by (auto simp: use_cases)
qed

theorem use_held_item_witness:
  "elem (split_sp ''sword on door'') 0 = Some ''sword''
   \<and> ''sword'' \<in> set (inventory (player example_hallway))
   \<and> use ''sword on door'' example_hallway
       = print (Str ''You can't use that like that.'') ''text-red-400'' example_hallway"
proof -
  have a: "elem (split_sp ''sword on door'') 0 = Some ''sword''"
    by (simp add: elem_def)
  have b: "''sword'' \<in> set (inventory (player example_hallway))"
    by (simp add: example_hallway_def initial_state_def)
  have c: "currentRoom (player example_hallway) = Str ''hallway''"
    by (simp add: example_hallway_def initial_state_def)
  show ?thesis
    using use_held_item [OF a b] a b c by simp
qed

text \<open>
  C10. A use command whose noun phrase has fewer than three parts has no target, so
  neither rule applies: it prints "You don't have that." when the first part is not held
  and the generic failure when it is, and player, rooms and \<^verbatim>\<open>gameRunning\<close> stay as
  they are, also for the key in the hallway.
\<close>

theorem use_short_command:
  assumes "split_sp command = itemToUse # rest" and "length rest < 2"
  shows "use command s =
           print (Str (if itemToUse \<in> set (inventory (player s))
                       then ''You can't use that like that.'' else ''You don't have that.''))
             ''text-red-400'' s
         \<and> player (use command s) = player s \<and> rooms (use command s) = rooms s
         \<and> gameRunning (use command s) = gameRunning s"
  using assms by (auto simp: use_cases elem_def)

theorem use_short_command_witness:
  "split_sp ''key door'' = [''key'', ''door''] \<and> length [''door''] < 2
   \<and> ''key'' \<in> set (inventory (player example_hallway))
   \<and> currentRoom (player example_hallway) = Str ''hallway''
   \<and> use ''key door'' example_hallway
       = print (Str ''You can't use that like that.'') ''text-red-400'' example_hallway"
proof -
  have a: "split_sp ''key door'' = ''key'' # [''door'']" by simp
  have b: "length [''door''] < 2" by simp
  have c: "''key'' \<in> set (inventory (player example_hallway))"
    by (simp add: example_hallway_def initial_state_def)
  have d: "currentRoom (player example_hallway) = Str ''hallway''"
    by (simp add: example_hallway_def initial_state_def)
  show ?thesis
    using use_short_command [OF a b, of example_hallway] c d by simp
qed

lemma current_room_key:
  "current_room s = Inr room \<Longrightarrow>
     currentRoom (player s) \<in> {Str ''cell'', Str ''hallway'', Str ''armory''}"
  by (cases "currentRoom (player s)") (auto simp: current_room_def split: if_splits)

lemma current_room_cell [simp]:
  "currentRoom (player s) = Str ''cell'' \<Longrightarrow> current_room s = Inr (cell (rooms s))"
  by (simp add: current_room_def)

lemma current_room_hallway [simp]:
  "currentRoom (player s) = Str ''hallway'' \<Longrightarrow> current_room s = Inr (hallway (rooms s))"
  by (simp add: current_room_def)

lemma current_room_armory [simp]:
  "currentRoom (player s) = Str ''armory'' \<Longrightarrow> current_room s = Inr (armory (rooms s))"
  by (simp add: current_room_def)

lemma items_get_table:
  "k \<in> set (map fst items_table) \<Longrightarrow> \<exists>it. items_get k = Own it"
  by (auto simp: items_get_def items_table_def)

lemma take_result:
  assumes "current_room s = Inr room"
    and "set (items room) \<subseteq> set (map fst items_table)"
  shows "take itemName s =
     (if itemName \<in> set (items room) \<and> takeable itemName
      then (case items_get itemName of
              Own it \<Rightarrow>
                Inr (print (Str (''You take the '' @ item_name it @ ''.'')) ''''
                      (s\<lparr>player := (player s)\<lparr>inventory := inventory (player s) @ [itemName]\<rparr>,
                         rooms := rooms_put (rooms s) (currentRoom (player s))
                                    (room\<lparr>items := filter (\<lambda>i. i \<noteq> itemName) (items room)\<rparr>)\<rparr>))
            | Inherited k \<Rightarrow> Inl (Builtin_deref k)
            | Absent \<Rightarrow> Inl TypeError)
      else Inr (print (Str ''You can't take that.'') ''text-red-400'' s))"
proof (cases "itemName \<in> set (items room)")
  case True
  then obtain it where "items_get itemName = Own it"
    using assms(2) items_get_table by blast
  then show ?thesis
    using assms(1) True by (simp add: take_def takeable_def)
next
  case False
  then show ?thesis using assms(1) by (simp add: take_def)
qed

lemma current_room_put:
  assumes "current_room s = Inr room"
  shows "current_room (print t c (s\<lparr>player := (player s)\<lparr>inventory := held\<rparr>,
                          rooms := rooms_put (rooms s) (currentRoom (player s)) room'\<rparr>))
         = Inr room'"
  using current_room_key [OF assms] by (auto simp: current_room_def)

section \<open>Taking an item\<close>

text \<open>
  C5. In a state whose current room exists and holds items of the table only, take
  succeeds exactly when the noun is in the current room's item list and its
  \<^verbatim>\<open>canTake\<close> flag is true. It then prints "You take the <name>.", appends the noun
  once at the end of the inventory and removes it from the room's list; the other rooms
  stay as they are, the player stays in the room, and taking the same noun again fails.
  In every other case, an unknown noun among them, it prints "You can't take that." and
  changes nothing else.
\<close>

theorem take_contract:
  assumes "current_room s = Inr room"
    and "set (items room) \<subseteq> set (map fst items_table)"
  shows "(itemName \<in> set (items room) \<and> takeable itemName \<longrightarrow>
            (\<exists>it s'. items_get itemName = Own it \<and> take itemName s = Inr s'
               \<and> outputConsole s' = outputConsole s
                    @ [(Str (''You take the '' @ item_name it @ ''.''), '''')]
               \<and> inventory (player s') = inventory (player s) @ [itemName]
               \<and> currentRoom (player s') = currentRoom (player s)
               \<and> rooms s' = rooms_put (rooms s) (currentRoom (player s))
                              (room\<lparr>items := filter (\<lambda>i. i \<noteq> itemName) (items room)\<rparr>)
               \<and> current_room s' = Inr (room\<lparr>items := filter (\<lambda>i. i \<noteq> itemName) (items room)\<rparr>)
               \<and> gameRunning s' = gameRunning s
               \<and> take itemName s' = Inr (print (Str ''You can't take that.'') ''text-red-400'' s')))
       \<and> (\<not> (itemName \<in> set (items room) \<and> takeable itemName) \<longrightarrow>
            take itemName s = Inr (print (Str ''You can't take that.'') ''text-red-400'' s))"
proof (intro conjI impI)
  assume ok: "itemName \<in> set (items room) \<and> takeable itemName"
  then obtain it where it: "items_get itemName = Own it"
    using assms(2) items_get_table by blast
  define room' where "room' = room\<lparr>items := filter (\<lambda>i. i \<noteq> itemName) (items room)\<rparr>"
  define s' where "s' = print (Str (''You take the '' @ item_name it @ ''.'')) ''''
                      (s\<lparr>player := (player s)\<lparr>inventory := inventory (player s) @ [itemName]\<rparr>,
                         rooms := rooms_put (rooms s) (currentRoom (player s)) room'\<rparr>)"
  have t: "take itemName s = Inr s'"
    using ok it by (simp add: take_result [OF assms] s'_def room'_def)
  have cr: "current_room s' = Inr room'"
    unfolding s'_def by (rule current_room_put [OF assms(1)])
  have sub: "set (items room') \<subseteq> set (map fst items_table)"
    using assms(2) by (auto simp: room'_def)
  have gone: "itemName \<notin> set (items room')"
    by (simp add: room'_def)
  have again: "take itemName s' = Inr (print (Str ''You can't take that.'') ''text-red-400'' s')"
    using gone by (simp add: take_result [OF cr sub])
  show "\<exists>it s'. items_get itemName = Own it \<and> take itemName s = Inr s'
               \<and> outputConsole s' = outputConsole s
                    @ [(Str (''You take the '' @ item_name it @ ''.''), '''')]
               \<and> inventory (player s') = inventory (player s) @ [itemName]
               \<and> currentRoom (player s') = currentRoom (player s)
               \<and> rooms s' = rooms_put (rooms s) (currentRoom (player s))
                              (room\<lparr>items := filter (\<lambda>i. i \<noteq> itemName) (items room)\<rparr>)
               \<and> current_room s' = Inr (room\<lparr>items := filter (\<lambda>i. i \<noteq> itemName) (items room)\<rparr>)
               \<and> gameRunning s' = gameRunning s
               \<and> take itemName s' = Inr (print (Str ''You can't take that.'') ''text-red-400'' s')"
    using it t cr again by (intro exI [of _ it] exI [of _ s']) (simp add: s'_def room'_def)
next
  assume "\<not> (itemName \<in> set (items room) \<and> takeable itemName)"
  then show "take itemName s = Inr (print (Str ''You can't take that.'') ''text-red-400'' s)"
    by (auto simp: take_result [OF assms])
qed

theorem take_contract_witness:
  "current_room example_key_revealed = Inr (cell (rooms example_key_revealed))
   \<and> set (items (cell (rooms example_key_revealed))) \<subseteq> set (map fst items_table)
   \<and> ''key'' \<in> set (items (cell (rooms example_key_revealed))) \<and> takeable ''key''
   \<and> (\<exists>s'. take ''key'' example_key_revealed = Inr s'
         \<and> inventory (player s') = [''key'']
         \<and> take ''key'' s' = Inr (print (Str ''You can't take that.'') ''text-red-400'' s'))
   \<and> \<not> takeable ''stone''
   \<and> take ''stone'' example_key_revealed
       = Inr (print (Str ''You can't take that.'') ''text-red-400'' example_key_revealed)"
proof -
  have a: "current_room example_key_revealed = Inr (cell (rooms example_key_revealed))"
    by (simp add: example_key_revealed_def initial_state_def)
  have b: "set (items (cell (rooms example_key_revealed))) \<subseteq> set (map fst items_table)"
    by (simp add: example_key_revealed_def initial_state_def initial_rooms_def items_table_def)
  have c: "''key'' \<in> set (items (cell (rooms example_key_revealed)))"
    by (simp add: example_key_revealed_def initial_state_def initial_rooms_def)
  have d: "takeable ''key''" "\<not> takeable ''stone''"
    by (simp_all add: takeable_def items_get_def items_table_def)
  have e: "inventory (player example_key_revealed) = []"
    by (simp add: example_key_revealed_def initial_state_def)
  show ?thesis
    using take_contract [OF a b, of "''key''"] take_contract [OF a b, of "''stone''"] a b c d e
    by auto
qed

section \<open>Moving\<close>

lemma getprop_own:
  "map_of ob k = Some v \<Longrightarrow> getprop ob k = Str v"
  by (simp add: getprop_def)

lemma getprop_none:
  "map_of ob k = None \<Longrightarrow> k \<notin> set object_prototype_keys \<Longrightarrow> getprop ob k = Undefined"
  by (simp add: getprop_def)

lemma move_own_direction:
  assumes "current_room s = Inr room"
    and "direction \<notin> set object_prototype_keys"
  shows "(map_of (exits room) direction = None \<longrightarrow>
            move direction s = Inr (print (Str ''You can't go that way.'') ''text-red-400'' s))
       \<and> (\<forall>dest msg. map_of (exits room) direction = Some dest \<and> dest \<noteq> []
            \<and> map_of (blockedExits room) direction = Some msg \<and> msg \<noteq> [] \<longrightarrow>
            move direction s = Inr (print (Str msg) ''text-yellow-400'' s))
       \<and> (\<forall>dest. map_of (exits room) direction = Some dest \<and> dest \<noteq> []
            \<and> map_of (blockedExits room) direction = None \<longrightarrow>
            move direction s = look (s\<lparr>player := (player s)\<lparr>currentRoom := Str dest\<rparr>\<rparr>))"
  using assms by (auto simp: move_def getprop_own getprop_none)

lemma move_blocked_stays:
  assumes "current_room s = Inr room"
    and "truthy (getprop (blockedExits room) direction)"
    and "move direction s = Inr s'"
  shows "player s' = player s \<and> rooms s' = rooms s \<and> gameRunning s' = gameRunning s"
  using assms by (auto simp: move_def split: if_splits)

text \<open>
  C7. The direction \<^verbatim>\<open>constructor\<close> is not a key of the cell's exits, yet move does
  not answer "You can't go that way.": the reads \<^verbatim>\<open>room.exits[direction]\<close> and
  \<^verbatim>\<open>room.blockedExits[direction]\<close> both find the function inherited from
  \<^verbatim>\<open>Object.prototype\<close>, which is truthy, and move prints that function as if it were
  a blocking message. The same happens when the input "go constructor" is submitted.
\<close>

theorem move_inherited_direction:
  "map_of (exits (cell initial_rooms)) ''constructor'' = None
   \<and> move ''constructor'' (initial_state True False [] [])
       = Inr (print (Builtin ''constructor'') ''text-yellow-400'' (initial_state True False [] []))
   \<and> move ''constructor'' (initial_state True False [] [])
       \<noteq> Inr (print (Str ''You can't go that way.'') ''text-red-400'' (initial_state True False [] []))
   \<and> submit ''go constructor'' (initial_state True False [] [])
       = Inr (print (Builtin ''constructor'') ''text-yellow-400''
               (print (Str ''> go constructor'') ''text-gray-500'' (initial_state True False [] [])))"
  by code_simp

section \<open>Starting the game\<close>

lemma look_result:
  "current_room s = Inr room \<Longrightarrow>
     look s = Inr (print (Str (description room)) ''''
                    (print (Str (name room)) ''text-cyan-400 text-lg'' s))"
  by (simp add: look_def)

lemma current_room_cong:
  "player s' = player s \<Longrightarrow> rooms s' = rooms s \<Longrightarrow> current_room s' = current_room s"
  by (simp add: current_room_def)

lemma startGame_result:
  assumes "current_room s = Inr room"
  shows "startGame s =
     Inr (s\<lparr>gameRunning := True, startButton_hidden := True, inputArea_hidden := False,
            outputConsole := [(Str ''Executing DungeonEscape.java...'', ''text-yellow-400''),
                              (Str ''---'', ''''),
                              (Str (name room), ''text-cyan-400 text-lg''),
                              (Str (description room), '''')]\<rparr>)"
proof -
  have "current_room (print (Str ''---'') ''''
            (print (Str ''Executing DungeonEscape.java...'') ''text-yellow-400''
              (s\<lparr>gameRunning := True, startButton_hidden := True,
                 inputArea_hidden := False, outputConsole := []\<rparr>))) = Inr room"
    using assms by (simp add: current_room_def)
  then show ?thesis
    by (simp add: startGame_def look_result print_def)
qed

text \<open>
  startGame itself resets nothing. It sets \<^verbatim>\<open>gameRunning\<close>, hides the start button,
  shows the input area, empties the console and prints the two opening lines and the
  name and description of the current room; it leaves the player and the rooms as they
  are. Started from the state in which the script loads, the game is in the cell with an
  empty inventory, the stone in the cell, the key nowhere, and the cell's north exit and
  the hallway's east exit blocked.
\<close>

lemma startGame_keeps_game_data:
  "(current_room s = Inr room \<longrightarrow>
      startGame s =
        Inr (s\<lparr>gameRunning := True, startButton_hidden := True, inputArea_hidden := False,
               outputConsole := [(Str ''Executing DungeonEscape.java...'', ''text-yellow-400''),
                                 (Str ''---'', ''''),
                                 (Str (name room), ''text-cyan-400 text-lg''),
                                 (Str (description room), '''')]\<rparr>))
   \<and> (\<forall>s'. startGame s = Inr s' \<longrightarrow> player s' = player s \<and> rooms s' = rooms s)
   \<and> (\<exists>s0. startGame (initial_state sb ia out v) = Inr s0
         \<and> gameRunning s0
         \<and> currentRoom (player s0) = Str ''cell''
         \<and> inventory (player s0) = []
         \<and> ''stone'' \<in> set (items (cell (rooms s0)))
         \<and> ''key'' \<notin> set (locations s0)
         \<and> getprop (blockedExits (cell (rooms s0))) ''north''
             = Str ''The door is barred from the other side.''
         \<and> getprop (blockedExits (hallway (rooms s0))) ''east'' = Str ''The door is locked.''
         \<and> outputConsole s0 = [(Str ''Executing DungeonEscape.java...'', ''text-yellow-400''),
                                (Str ''---'', ''''),
                                (Str (name (cell initial_rooms)), ''text-cyan-400 text-lg''),
                                (Str (description (cell initial_rooms)), '''')])"
proof (intro conjI impI allI)
  assume "current_room s = Inr room"
  then show "startGame s =
        Inr (s\<lparr>gameRunning := True, startButton_hidden := True, inputArea_hidden := False,
               outputConsole := [(Str ''Executing DungeonEscape.java...'', ''text-yellow-400''),
                                 (Str ''---'', ''''),
                                 (Str (name room), ''text-cyan-400 text-lg''),
                                 (Str (description room), '''')]\<rparr>)"
    by (rule startGame_result)
next
  fix s' assume "startGame s = Inr s'"
  then show "player s' = player s" "rooms s' = rooms s"
    by (auto simp: startGame_def look_def print_def split: sum.splits)
next
  have c: "current_room (initial_state sb ia out v) = Inr (cell initial_rooms)"
    by (simp add: initial_state_def)
  show "\<exists>s0. startGame (initial_state sb ia out v) = Inr s0
         \<and> gameRunning s0
         \<and> currentRoom (player s0) = Str ''cell''
         \<and> inventory (player s0) = []
         \<and> ''stone'' \<in> set (items (cell (rooms s0)))
         \<and> ''key'' \<notin> set (locations s0)
         \<and> getprop (blockedExits (cell (rooms s0))) ''north''
             = Str ''The door is barred from the other side.''
         \<and> getprop (blockedExits (hallway (rooms s0))) ''east'' = Str ''The door is locked.''
         \<and> outputConsole s0 = [(Str ''Executing DungeonEscape.java...'', ''text-yellow-400''),
                                (Str ''---'', ''''),
                                (Str (name (cell initial_rooms)), ''text-cyan-400 text-lg''),
                                (Str (description (cell initial_rooms)), '''')]"
    unfolding startGame_result [OF c]
    by (simp add: initial_state_def initial_rooms_def locations_def getprop_def)
qed

section \<open>The session flag\<close>

lemma look_gameRunning: "look s = Inr s' \<Longrightarrow> gameRunning s' = gameRunning s"
  by (auto simp: look_def split: sum.splits)

lemma move_gameRunning: "move d s = Inr s' \<Longrightarrow> gameRunning s' = gameRunning s"
  by (auto simp: move_def look_def split: sum.splits if_splits)

lemma take_gameRunning: "take n s = Inr s' \<Longrightarrow> gameRunning s' = gameRunning s"
  by (auto simp: take_def split: sum.splits if_splits lookup.splits)

lemma stone_onExamine_gameRunning:
  "stone_onExamine s = (s', r) \<Longrightarrow> gameRunning s' = gameRunning s"
  by (auto simp: stone_onExamine_def split: if_splits)

lemma onExamine_stone_only:
  "items_get n = Own it \<Longrightarrow> onExamine it = Some f \<Longrightarrow> n = ''stone'' \<and> f = stone_onExamine"
  by (auto simp: items_get_def items_table_def split: if_splits)

lemma examine_gameRunning: "examine n s = Inr s' \<Longrightarrow> gameRunning s' = gameRunning s"
  by (auto simp: examine_def split: sum.splits if_splits lookup.splits option.splits prod.splits
      dest!: onExamine_stone_only dest: stone_onExamine_gameRunning)

lemma print_carried_gameRunning:
  "print_carried xs s = Inr s' \<Longrightarrow> gameRunning s' = gameRunning s"
  by (induction xs arbitrary: s) (auto split: lookup.splits)

lemma showInventory_gameRunning: "showInventory s = Inr s' \<Longrightarrow> gameRunning s' = gameRunning s"
  by (auto simp: showInventory_def split: if_splits dest: print_carried_gameRunning)

lemma use_gameRunning:
  "gameRunning (use c s) \<noteq> gameRunning s \<Longrightarrow>
     elem (split_sp c) 0 = Some ''sword'' \<and> elem (split_sp c) 2 = Some ''door''
     \<and> currentRoom (player s) = Str ''cell'' \<and> ''sword'' \<in> set (inventory (player s))
     \<and> gameRunning s \<and> \<not> gameRunning (use c s)"
  by (auto simp: use_cases split: if_splits option.splits)

lemma switch_verb_gameRunning:
  assumes "switch_verb verb noun s = Inr s'" and "gameRunning s' \<noteq> gameRunning s"
  shows "verb = Some ''use'' \<and> s' = use noun s"
  using assms look_gameRunning [of s s'] move_gameRunning [of noun s s']
    take_gameRunning [of noun s s'] examine_gameRunning [of noun s s']
    showInventory_gameRunning [of s s']
  by (auto simp: switch_verb_def split: if_splits)

lemma processCommand_cases:
  "processCommand s =
     (if toLowerCase (trim (commandInput s)) = [] then Inr s
      else switch_verb (fst (parse (toLowerCase (trim (commandInput s)))))
             (snd (parse (toLowerCase (trim (commandInput s)))))
             ((print (Str (''> '' @ toLowerCase (trim (commandInput s)))) ''text-gray-500'' s)
                \<lparr>commandInput := []\<rparr>))"
  by (simp add: processCommand_def Let_def split: prod.splits)

lemma submit_flag_change:
  assumes "submit v s = Inr s'" and "gameRunning s' \<noteq> gameRunning s"
  shows "fst (parse (toLowerCase (trim v))) = Some ''use''
       \<and> elem (split_sp (snd (parse (toLowerCase (trim v))))) 0 = Some ''sword''
       \<and> elem (split_sp (snd (parse (toLowerCase (trim v))))) 2 = Some ''door''
       \<and> currentRoom (player s) = Str ''cell''
       \<and> ''sword'' \<in> set (inventory (player s))
       \<and> gameRunning s \<and> \<not> gameRunning s'"
proof -
  define t where "t = toLowerCase (trim v)"
  define s1 where "s1 = (print (Str (''> '' @ t)) ''text-gray-500'' (s\<lparr>commandInput := v\<rparr>))
                \<lparr>commandInput := []\<rparr>"
  have ne: "t \<noteq> []"
    using assms by (auto simp: submit_def processCommand_cases t_def split: if_splits)
  then have sw: "switch_verb (fst (parse t)) (snd (parse t)) s1 = Inr s'"
    using assms(1) by (simp add: submit_def processCommand_cases t_def s1_def)
  have g1: "gameRunning s1 = gameRunning s" "player s1 = player s"
    by (simp_all add: s1_def)
  from switch_verb_gameRunning [OF sw] assms(2) g1
  have u: "fst (parse t) = Some ''use''" "s' = use (snd (parse t)) s1" by auto
  have "gameRunning (use (snd (parse t)) s1) \<noteq> gameRunning s1"
    using assms(2) u g1 by simp
  from use_gameRunning [OF this] u g1 show ?thesis
    by (simp add: t_def)
qed

lemma current_room_flag [simp]: "current_room (s\<lparr>gameRunning := b\<rparr>) = current_room s"
  by (simp add: current_room_def)

lemma print_flag: "print t c (s\<lparr>gameRunning := b\<rparr>) = (print t c s)\<lparr>gameRunning := b\<rparr>"
  by (simp add: print_def)

lemma look_flag:
  "look (s\<lparr>gameRunning := b\<rparr>) = map_sum id (\<lambda>t. t\<lparr>gameRunning := b\<rparr>) (look s)"
  by (simp add: look_def print_flag split: sum.splits)

lemma move_flag:
  "move d (s\<lparr>gameRunning := b\<rparr>) = map_sum id (\<lambda>t. t\<lparr>gameRunning := b\<rparr>) (move d s)"
proof -
  have "look (s\<lparr>gameRunning := b, player := (player s)\<lparr>currentRoom := x\<rparr>\<rparr>)
        = map_sum id (\<lambda>t. t\<lparr>gameRunning := b\<rparr>) (look (s\<lparr>player := (player s)\<lparr>currentRoom := x\<rparr>\<rparr>))"
    for x
  proof -
    have e: "s\<lparr>gameRunning := b, player := (player s)\<lparr>currentRoom := x\<rparr>\<rparr>
             = (s\<lparr>player := (player s)\<lparr>currentRoom := x\<rparr>\<rparr>)\<lparr>gameRunning := b\<rparr>"
      by simp
    show ?thesis by (simp only: e look_flag)
  qed
  then show ?thesis
    by (simp add: move_def print_flag split: sum.splits)
qed

lemma take_flag:
  "take n (s\<lparr>gameRunning := b\<rparr>) = map_sum id (\<lambda>t. t\<lparr>gameRunning := b\<rparr>) (take n s)"
proof (cases "current_room s")
  case (Inl e)
  then show ?thesis by (simp add: take_def)
next
  case (Inr room)
  show ?thesis
  proof (cases "items_get n")
    case (Own it)
    then show ?thesis using Inr by (simp add: take_def print_def)
  next
    case (Inherited k)
    then show ?thesis using Inr by (simp add: take_def print_def)
  next
    case Absent
    then show ?thesis using Inr by (simp add: take_def print_def)
  qed
qed

lemma stone_onExamine_flag:
  "stone_onExamine (s\<lparr>gameRunning := b\<rparr>)
     = (fst (stone_onExamine s)\<lparr>gameRunning := b\<rparr>, snd (stone_onExamine s))"
  by (simp add: stone_onExamine_def)

lemma examine_flag:
  "examine n (s\<lparr>gameRunning := b\<rparr>) = map_sum id (\<lambda>t. t\<lparr>gameRunning := b\<rparr>) (examine n s)"
proof (cases "items_get n")
  case (Own it)
  show ?thesis
  proof (cases "onExamine it")
    case None
    then show ?thesis using Own
      by (simp add: examine_def print_flag split: sum.splits)
  next
    case (Some f)
    then have f: "f = stone_onExamine" using Own onExamine_stone_only by blast
    show ?thesis using Own Some
      by (simp add: examine_def print_flag f stone_onExamine_flag split: sum.splits prod.splits)
  qed
next
  case (Inherited k)
  then show ?thesis by (simp add: examine_def print_flag split: sum.splits)
next
  case Absent
  then show ?thesis by (simp add: examine_def print_flag split: sum.splits)
qed

lemma print_carried_flag:
  "print_carried xs (s\<lparr>gameRunning := b\<rparr>)
     = map_sum id (\<lambda>t. t\<lparr>gameRunning := b\<rparr>) (print_carried xs s)"
  by (induction xs arbitrary: s) (simp_all add: print_flag split: lookup.splits)

lemma showInventory_flag:
  "showInventory (s\<lparr>gameRunning := b\<rparr>)
     = map_sum id (\<lambda>t. t\<lparr>gameRunning := b\<rparr>) (showInventory s)"
  by (simp add: showInventory_def print_flag print_carried_flag)

lemma use_flag:
  "(use c (s\<lparr>gameRunning := b\<rparr>))\<lparr>gameRunning := False\<rparr> = (use c s)\<lparr>gameRunning := False\<rparr>"
proof -
  define h where "h = (case elem (split_sp c) 0 of None \<Rightarrow> False
              | Some i \<Rightarrow> i \<in> set (inventory (player s)))"
  define k where "k = (elem (split_sp c) 0 = Some ''key'' \<and> elem (split_sp c) 2 = Some ''door''
              \<and> currentRoom (player s) = Str ''hallway'')"
  define w where "w = (elem (split_sp c) 0 = Some ''sword'' \<and> elem (split_sp c) 2 = Some ''door''
              \<and> currentRoom (player s) = Str ''cell'')"
  have p: "player (s\<lparr>gameRunning := b\<rparr>) = player s" "rooms (s\<lparr>gameRunning := b\<rparr>) = rooms s"
    by simp_all
  note u = use_cases [of c s, folded h_def k_def w_def]
    use_cases [of c "s\<lparr>gameRunning := b\<rparr>", unfolded p, folded h_def k_def w_def]
  show ?thesis
    unfolding u by (cases h; cases k; cases w) (simp_all add: print_def)
qed

lemma erase_after_set:
  "map_sum id (\<lambda>t. t\<lparr>gameRunning := False\<rparr>) (map_sum id (\<lambda>t. t\<lparr>gameRunning := b\<rparr>) r)
     = map_sum id (\<lambda>t. t\<lparr>gameRunning := False\<rparr>) r"
  by (cases r) simp_all

lemma switch_verb_flag:
  "map_sum id (\<lambda>t. t\<lparr>gameRunning := False\<rparr>) (switch_verb verb noun (s\<lparr>gameRunning := b\<rparr>))
     = map_sum id (\<lambda>t. t\<lparr>gameRunning := False\<rparr>) (switch_verb verb noun s)"
  by (simp add: switch_verb_def look_flag move_flag take_flag examine_flag showInventory_flag
      use_flag print_flag erase_after_set)

lemma submit_flag:
  "map_sum id (\<lambda>t. t\<lparr>gameRunning := False\<rparr>) (submit v (s\<lparr>gameRunning := b\<rparr>))
     = map_sum id (\<lambda>t. t\<lparr>gameRunning := False\<rparr>) (submit v s)"
proof -
  have eq: "(print t c (s\<lparr>gameRunning := b, commandInput := v\<rparr>))\<lparr>commandInput := []\<rparr>
        = ((print t c (s\<lparr>commandInput := v\<rparr>))\<lparr>commandInput := []\<rparr>)\<lparr>gameRunning := b\<rparr>" for t c
    by (simp add: print_def)
  show ?thesis
    by (simp add: submit_def processCommand_cases eq switch_verb_flag)
qed

text \<open>
  processCommand itself never reads \<^verbatim>\<open>gameRunning\<close>: whatever the flag is, an input
  gives the same fault or the same state up to the flag. The only input that changes the
  flag is the successful escape, a use command whose first part is the sword and whose
  third part is the door, given in the cell with the sword held; it clears the flag.
\<close>

lemma session_flag_written_not_read:
  "(\<forall>s'. submit v s = Inr s' \<and> gameRunning s' \<noteq> gameRunning s \<longrightarrow>
       fst (parse (toLowerCase (trim v))) = Some ''use''
       \<and> elem (split_sp (snd (parse (toLowerCase (trim v))))) 0 = Some ''sword''
       \<and> elem (split_sp (snd (parse (toLowerCase (trim v))))) 2 = Some ''door''
       \<and> currentRoom (player s) = Str ''cell''
       \<and> ''sword'' \<in> set (inventory (player s))
       \<and> gameRunning s \<and> \<not> gameRunning s')
   \<and> map_sum id (\<lambda>t. t\<lparr>gameRunning := False\<rparr>) (submit v (s\<lparr>gameRunning := b\<rparr>))
       = map_sum id (\<lambda>t. t\<lparr>gameRunning := False\<rparr>) (submit v s)"
  using submit_flag_change [of v s] submit_flag [where v = v and s = s and b = b] by blast

section \<open>Parsing the input\<close>

lemma join_Cons_char: "join ((c # w) # ws) = c # join (w # ws)"
  by (cases ws) simp_all

lemma join_split_sp: "join (split_sp s) = s"
proof (induction s)
  case Nil
  show ?case by simp
next
  case (Cons c cs)
  obtain w ws where sp: "split_sp cs = w # ws"
    using split_sp_nonempty [of cs] by (cases "split_sp cs") auto
  show ?case using Cons sp by (simp add: join_Cons_char)
qed

lemma split_sp_first_space:
  "split_sp t = w # ws \<Longrightarrow>
     w = takeWhile (\<lambda>c. c \<noteq> CHR '' '') t \<and> join ws = drop (Suc (length w)) t"
proof (induction t arbitrary: w ws)
  case Nil
  then show ?case by simp
next
  case (Cons c cs)
  obtain w' ws' where sp: "split_sp cs = w' # ws'"
    using split_sp_nonempty [of cs] by (cases "split_sp cs") auto
  show ?case
  proof (cases "c = CHR '' ''")
    case True
    then have "w = []" "ws = split_sp cs" using Cons.prems by auto
    then show ?thesis using True join_split_sp [of cs] by simp
  next
    case False
    then have "w = c # w'" "ws = ws'" using Cons.prems sp by auto
    then show ?thesis using False Cons.IH [OF sp] by simp
  qed
qed

lemma parse_first_space:
  "parse t = (Some (takeWhile (\<lambda>c. c \<noteq> CHR '' '') t),
              drop (Suc (length (takeWhile (\<lambda>c. c \<noteq> CHR '' '') t))) t)"
proof -
  obtain w ws where sp: "split_sp t = w # ws"
    using split_sp_nonempty [of t] by (cases "split_sp t") auto
  show ?thesis using split_sp_first_space [OF sp] sp by (simp add: parse_def)
qed

lemma split_sp_no_space: "CHR '' '' \<notin> set w \<Longrightarrow> split_sp w = [w]"
  by (induction w) auto

lemma split_sp_append:
  "CHR '' '' \<notin> set w \<Longrightarrow> split_sp (w @ CHR '' '' # rest) = w # split_sp rest"
  by (induction w) auto

lemma split_sp_join:
  "\<forall>x \<in> set (w # ws). CHR '' '' \<notin> set x \<Longrightarrow> split_sp (join (w # ws)) = w # ws"
proof (induction ws arbitrary: w)
  case Nil
  then show ?case by (simp add: split_sp_no_space)
next
  case (Cons y ys)
  then show ?case by (simp add: split_sp_append)
qed

lemma lower_char_cases:
  "lower_char c = c \<or> (c \<in> set upper_chars \<and> lower_char c \<in> set lower_chars)"
proof (cases "map_of (zip upper_chars lower_chars) c")
  case None
  then show ?thesis by (simp add: lower_char_def)
next
  case (Some d)
  then have "(c, d) \<in> set (zip upper_chars lower_chars)" by (rule map_of_SomeD)
  then have "c \<in> set upper_chars" "d \<in> set lower_chars"
    by (auto dest: set_zip_leftD set_zip_rightD)
  then show ?thesis using Some by (simp add: lower_char_def)
qed

lemma letters_not_ws:
  "c \<in> set upper_chars \<Longrightarrow> \<not> is_ws c" "c \<in> set lower_chars \<Longrightarrow> \<not> is_ws c"
proof -
  have "list_all (\<lambda>c. \<not> is_ws c) upper_chars" "list_all (\<lambda>c. \<not> is_ws c) lower_chars"
    by code_simp+
  then show "c \<in> set upper_chars \<Longrightarrow> \<not> is_ws c" "c \<in> set lower_chars \<Longrightarrow> \<not> is_ws c"
    by (auto simp: list_all_iff)
qed

lemma is_ws_lower_char: "is_ws (lower_char c) = is_ws c"
  using lower_char_cases [of c] letters_not_ws by auto

lemma is_ws_space: "is_ws CHR '' ''"
  by (simp add: is_ws_def)

lemma lower_char_space: "lower_char c = CHR '' '' \<longleftrightarrow> c = CHR '' ''"
  using lower_char_cases [of c] letters_not_ws [of c] letters_not_ws [of "lower_char c"]
    is_ws_space by auto

lemma toLowerCase_join: "toLowerCase (join ws) = join (map toLowerCase ws)"
proof (induction ws rule: join.induct)
  case 1
  show ?case by (simp add: toLowerCase_def)
next
  case (2 x)
  show ?case by simp
next
  case (3 x y ys)
  have "lower_char CHR '' '' = CHR '' ''" by (simp add: lower_char_space)
  then show ?case using 3 by (simp add: toLowerCase_def)
qed

lemma dropWhile_hd: "xs \<noteq> [] \<Longrightarrow> \<not> P (hd xs) \<Longrightarrow> dropWhile P xs = xs"
  by (cases xs) auto

lemma trim_id:
  assumes "s \<noteq> []" and "\<not> is_ws (hd s)" and "\<not> is_ws (last s)"
  shows "trim s = s"
proof -
  have a: "dropWhile is_ws s = s" using assms by (simp add: dropWhile_hd)
  have "rev s \<noteq> []" "\<not> is_ws (hd (rev s))" using assms by (simp_all add: hd_rev)
  then have "dropWhile is_ws (rev s) = rev s" by (rule dropWhile_hd)
  then show ?thesis by (simp add: trim_def a)
qed

lemma join_nonempty: "w \<noteq> [] \<Longrightarrow> join (w # ws) \<noteq> []"
  by (cases ws) auto

lemma hd_join: "w \<noteq> [] \<Longrightarrow> hd (join (w # ws)) = hd w"
  by (cases ws) auto

lemma last_join:
  "\<forall>x \<in> set (w # ws). x \<noteq> [] \<Longrightarrow> last (join (w # ws)) = last (last (w # ws))"
proof (induction ws arbitrary: w)
  case Nil
  show ?case by simp
next
  case (Cons y ys)
  have "join (y # ys) \<noteq> []" using Cons.prems by (simp add: join_nonempty)
  then show ?case using Cons by simp
qed

lemma trim_join:
  assumes "\<forall>x \<in> set (w # ws). x \<noteq> [] \<and> (\<forall>c \<in> set x. \<not> is_ws c)"
  shows "trim (join (w # ws)) = join (w # ws)"
proof (rule trim_id)
  show "join (w # ws) \<noteq> []" using assms by (simp add: join_nonempty)
  show "\<not> is_ws (hd (join (w # ws)))" using assms by (simp add: hd_join)
  have ne: "\<forall>x \<in> set (w # ws). x \<noteq> []" using assms by blast
  have "last (w # ws) \<in> set (w # ws)" by (rule last_in_set) simp
  then have "last (w # ws) \<noteq> []" "\<forall>c \<in> set (last (w # ws)). \<not> is_ws c"
    using assms by blast+
  then have "\<not> is_ws (last (last (w # ws)))" by (meson last_in_set)
  then show "\<not> is_ws (last (join (w # ws)))" using last_join [OF ne] by simp
qed

lemma split_ws_no_ws: "\<forall>c \<in> set w. \<not> is_ws c \<Longrightarrow> split_ws w = [w]"
  by (induction w) auto

lemma split_ws_append:
  "\<forall>c \<in> set w. \<not> is_ws c \<Longrightarrow> is_ws c0 \<Longrightarrow> split_ws (w @ c0 # rest) = w # split_ws rest"
  by (induction w) auto

lemma split_ws_join:
  "\<forall>x \<in> set (w # ws). \<forall>c \<in> set x. \<not> is_ws c \<Longrightarrow> split_ws (join (w # ws)) = w # ws"
proof (induction ws arbitrary: w)
  case Nil
  then show ?case by (simp add: split_ws_no_ws)
next
  case (Cons y ys)
  then show ?case by (simp add: split_ws_append is_ws_space)
qed

lemma tokens_join:
  assumes "\<forall>x \<in> set (w # ws). x \<noteq> [] \<and> (\<forall>c \<in> set x. \<not> is_ws c)"
  shows "tokens (join (w # ws)) = w # ws"
proof -
  have "split_ws (join (w # ws)) = w # ws" using assms by (intro split_ws_join) blast
  moreover have "filter (\<lambda>x. x \<noteq> []) (w # ws) = w # ws"
    using assms by (intro filter_True) blast
  ultimately show ?thesis by (simp only: tokens_def)
qed

lemma words_lower:
  assumes "\<forall>x \<in> set (w # ws). x \<noteq> [] \<and> (\<forall>c \<in> set x. \<not> is_ws c)"
  shows "\<forall>x \<in> set (toLowerCase w # map toLowerCase ws). x \<noteq> [] \<and> (\<forall>c \<in> set x. \<not> is_ws c)"
  using assms by (auto simp: toLowerCase_def is_ws_lower_char)

lemma no_ws_no_space: "\<forall>c \<in> set x. \<not> is_ws c \<Longrightarrow> CHR '' '' \<notin> set x"
  using is_ws_space by blast

lemma parse_single_spaces:
  assumes "\<forall>x \<in> set (w # ws). x \<noteq> [] \<and> (\<forall>c \<in> set x. \<not> is_ws c)"
  shows "parse (toLowerCase (trim (join (w # ws)))) = (Some (toLowerCase w), join (map toLowerCase ws))"
    and "spec_parse (join (w # ws)) = Some (toLowerCase w, join (map toLowerCase ws))"
proof -
  have l: "toLowerCase (join (w # ws)) = join (toLowerCase w # map toLowerCase ws)"
    by (simp add: toLowerCase_join)
  have "\<forall>x \<in> set (toLowerCase w # map toLowerCase ws). CHR '' '' \<notin> set x"
    using words_lower [OF assms] no_ws_no_space by blast
  then have "split_sp (join (toLowerCase w # map toLowerCase ws)) = toLowerCase w # map toLowerCase ws"
    by (rule split_sp_join)
  then show "parse (toLowerCase (trim (join (w # ws)))) = (Some (toLowerCase w), join (map toLowerCase ws))"
    by (simp add: trim_join [OF assms] l parse_def)
  show "spec_parse (join (w # ws)) = Some (toLowerCase w, join (map toLowerCase ws))"
    by (simp add: spec_parse_def l tokens_join [OF words_lower [OF assms]])
qed

text \<open>
  C8, as stated, fails. "take  key", with two spaces, has the same tokens as "take key",
  but processCommand cuts at every single space: the noun is " key" with its leading
  space, and in a cell where the key lies the first input fails where the second takes
  the key.
\<close>

theorem parse_whitespace_counterexample:
  "tokens ''take  key'' = tokens ''take key''
   \<and> spec_parse ''take  key'' = Some (''take'', ''key'')
   \<and> parse (toLowerCase (trim ''take  key'')) = (Some ''take'', '' key'')
   \<and> parse (toLowerCase (trim ''take key'')) = (Some ''take'', ''key'')
   \<and> (case submit ''take  key'' example_key_revealed of
         Inl e \<Rightarrow> False | Inr s \<Rightarrow> inventory (player s) = [])
   \<and> (case submit ''take key'' example_key_revealed of
         Inl e \<Rightarrow> False | Inr s \<Rightarrow> inventory (player s) = [''key''])"
  by code_simp

text \<open>
  C8, amended. processCommand trims the input and puts it in lower case. If nothing is
  left it does nothing: no echo, no action, the state as it was. Otherwise it echoes the
  text and takes as verb the text before the first space and as noun everything after
  that space, unchanged. So for words of non-blank characters with exactly one space
  between them, the verb is the first word in lower case and the noun the other words in
  lower case joined by single spaces, as the specification's parser has it; further
  spaces, or other white space between words, stay in the noun or in the verb.
\<close>

theorem parse_cuts_at_single_spaces:
  "processCommand s =
     (if toLowerCase (trim (commandInput s)) = [] then Inr s
      else switch_verb
             (Some (takeWhile (\<lambda>c. c \<noteq> CHR '' '') (toLowerCase (trim (commandInput s)))))
             (drop (Suc (length (takeWhile (\<lambda>c. c \<noteq> CHR '' '')
                      (toLowerCase (trim (commandInput s))))))
                (toLowerCase (trim (commandInput s))))
             ((print (Str (''> '' @ toLowerCase (trim (commandInput s)))) ''text-gray-500'' s)
                \<lparr>commandInput := []\<rparr>))
   \<and> ((\<forall>x \<in> set (w # ws). x \<noteq> [] \<and> (\<forall>c \<in> set x. \<not> is_ws c)) \<longrightarrow>
        parse (toLowerCase (trim (join (w # ws))))
          = (Some (toLowerCase w), join (map toLowerCase ws))
        \<and> spec_parse (join (w # ws)) = Some (toLowerCase w, join (map toLowerCase ws)))"
proof (rule conjI)
  show "processCommand s =
     (if toLowerCase (trim (commandInput s)) = [] then Inr s
      else switch_verb
             (Some (takeWhile (\<lambda>c. c \<noteq> CHR '' '') (toLowerCase (trim (commandInput s)))))
             (drop (Suc (length (takeWhile (\<lambda>c. c \<noteq> CHR '' '')
                      (toLowerCase (trim (commandInput s))))))
                (toLowerCase (trim (commandInput s))))
             ((print (Str (''> '' @ toLowerCase (trim (commandInput s)))) ''text-gray-500'' s)
                \<lparr>commandInput := []\<rparr>))"
    by (simp add: processCommand_cases parse_first_space)
  show "(\<forall>x \<in> set (w # ws). x \<noteq> [] \<and> (\<forall>c \<in> set x. \<not> is_ws c)) \<longrightarrow>
        parse (toLowerCase (trim (join (w # ws))))
          = (Some (toLowerCase w), join (map toLowerCase ws))
        \<and> spec_parse (join (w # ws)) = Some (toLowerCase w, join (map toLowerCase ws))"
    using parse_single_spaces [of w ws] by blast
qed

theorem parse_cuts_at_single_spaces_witness:
  "list_all (\<lambda>x. x \<noteq> [] \<and> list_all (\<lambda>c. \<not> is_ws c) x) [''Take'', ''the'', ''KEY'']
   \<and> join [''Take'', ''the'', ''KEY''] = ''Take the KEY''
   \<and> parse (toLowerCase (trim ''Take the KEY'')) = (Some ''take'', ''the key'')
   \<and> spec_parse ''Take the KEY'' = Some (''take'', ''the key'')"
proof -
  have h: "\<forall>x \<in> set (''Take'' # [''the'', ''KEY'']). x \<noteq> [] \<and> (\<forall>c \<in> set x. \<not> is_ws c)"
    by (simp add: is_ws_def)
  have l: "toLowerCase ''Take'' = ''take''" "map toLowerCase [''the'', ''KEY''] = [''the'', ''key'']"
    by code_simp+
  have h': "list_all (\<lambda>x. x \<noteq> [] \<and> list_all (\<lambda>c. \<not> is_ws c) x) [''Take'', ''the'', ''KEY'']"
    by (simp add: is_ws_def)
  show ?thesis
    using parse_cuts_at_single_spaces [of _ "''Take''" "[''the'', ''KEY'']"] h h' l
    by simp
qed

section \<open>What each action changes\<close>

lemma look_effect:
  assumes "look s = Inr s'"
  shows "player s' = player s \<and> rooms s' = rooms s
       \<and> (\<exists>ls. ls \<noteq> [] \<and> outputConsole s' = outputConsole s @ ls)"
  using assms by (auto simp: look_def split: sum.splits)

lemma move_effect:
  assumes "move d s = Inr s'"
  shows "(\<exists>ls. ls \<noteq> [] \<and> outputConsole s' = outputConsole s @ ls)
       \<and> rooms s' = rooms s \<and> inventory (player s') = inventory (player s)
       \<and> (currentRoom (player s') = currentRoom (player s)
           \<or> (\<exists>room room'. current_room s = Inr room \<and> current_room s' = Inr room'
                 \<and> truthy (getprop (exits room) d)
                 \<and> \<not> truthy (getprop (blockedExits room) d)
                 \<and> currentRoom (player s') = getprop (exits room) d))"
proof (cases "current_room s")
  case (Inl e)
  then show ?thesis using assms by (simp add: move_def)
next
  case (Inr room)
  show ?thesis
  proof (cases "truthy (getprop (exits room) d) \<and> \<not> truthy (getprop (blockedExits room) d)")
    case False
    then show ?thesis using assms Inr by (auto simp: move_def split: if_splits)
  next
    case True
    define s1 where "s1 = s\<lparr>player := (player s)\<lparr>currentRoom := getprop (exits room) d\<rparr>\<rparr>"
    have l: "look s1 = Inr s'" using assms Inr True by (simp add: move_def s1_def)
    then obtain room' where r': "current_room s1 = Inr room'"
      by (auto simp: look_def split: sum.splits)
    have "current_room s' = current_room s1"
      using look_effect [OF l] by (intro current_room_cong) simp_all
    then show ?thesis
      using look_effect [OF l] True Inr r' by (auto simp: s1_def)
  qed
qed

lemma take_effect:
  assumes "take n s = Inr s'"
  shows "(\<exists>ls. ls \<noteq> [] \<and> outputConsole s' = outputConsole s @ ls)
       \<and> currentRoom (player s') = currentRoom (player s)
       \<and> ((player s' = player s \<and> rooms s' = rooms s)
           \<or> (\<exists>room it. current_room s = Inr room \<and> n \<in> set (items room)
                 \<and> items_get n = Own it \<and> canTake it
                 \<and> inventory (player s') = inventory (player s) @ [n]
                 \<and> rooms s' = rooms_put (rooms s) (currentRoom (player s))
                                (room\<lparr>items := filter (\<lambda>i. i \<noteq> n) (items room)\<rparr>)))"
proof (cases "current_room s")
  case (Inl e)
  then show ?thesis using assms by (simp add: take_def)
next
  case (Inr room)
  show ?thesis
  proof (cases "items_get n")
    case (Own it)
    then show ?thesis using assms Inr by (auto simp: take_def split: if_splits)
  next
    case (Inherited k)
    then show ?thesis using assms Inr by (auto simp: take_def split: if_splits)
  next
    case Absent
    then show ?thesis using assms Inr by (auto simp: take_def split: if_splits)
  qed
qed

lemma stone_onExamine_cases:
  "stone_onExamine s =
     (if ''key'' \<notin> set (inventory (player s)) \<and> ''key'' \<notin> set (items (cell (rooms s)))
      then (s\<lparr>rooms := reveal_key (rooms s)\<rparr>, ''You lift the stone and find a small, rusty key!'')
      else (s, ''It's just a stone. You already found the key that was under it.''))"
  by (simp add: stone_onExamine_def reveal_key_def)

lemma examine_effect:
  assumes "examine n s = Inr s'"
  shows "(\<exists>ls. ls \<noteq> [] \<and> outputConsole s' = outputConsole s @ ls)
       \<and> player s' = player s
       \<and> (rooms s' = rooms s
           \<or> (n = ''stone'' \<and> ''key'' \<notin> set (inventory (player s))
                 \<and> ''key'' \<notin> set (items (cell (rooms s)))
                 \<and> rooms s' = reveal_key (rooms s)))"
proof (cases "current_room s")
  case (Inl e)
  then show ?thesis using assms by (simp add: examine_def)
next
  case (Inr room)
  show ?thesis
  proof (cases "items_get n")
    case (Own it)
    show ?thesis
    proof (cases "onExamine it")
      case None
      then show ?thesis using assms Inr Own by (auto simp: examine_def split: if_splits)
    next
      case (Some f)
      then have f: "f = stone_onExamine" "n = ''stone''"
        using Own onExamine_stone_only by blast+
      show ?thesis using assms Inr Own Some
        by (auto simp: examine_def f stone_onExamine_cases split: if_splits)
    qed
  next
    case (Inherited k)
    then show ?thesis using assms Inr by (auto simp: examine_def split: if_splits)
  next
    case Absent
    then show ?thesis using assms Inr by (auto simp: examine_def split: if_splits)
  qed
qed

lemma print_carried_effect:
  "print_carried xs s = Inr s' \<Longrightarrow>
     player s' = player s \<and> rooms s' = rooms s
     \<and> (\<exists>ls. outputConsole s' = outputConsole s @ ls)"
proof (induction xs arbitrary: s)
  case Nil
  then show ?case by simp
next
  case (Cons x xs)
  then show ?case by (fastforce split: lookup.splits)
qed

lemma showInventory_effect:
  assumes "showInventory s = Inr s'"
  shows "player s' = player s \<and> rooms s' = rooms s
       \<and> (\<exists>ls. ls \<noteq> [] \<and> outputConsole s' = outputConsole s @ ls)"
proof (cases "inventory (player s) = []")
  case True
  then show ?thesis using assms by (auto simp: showInventory_def)
next
  case False
  then have "print_carried (inventory (player s)) (print (Str ''You are carrying:'') '''' s) = Inr s'"
    using assms by (simp add: showInventory_def)
  from print_carried_effect [OF this] show ?thesis by auto
qed

lemma use_effect:
  "(\<exists>ls. ls \<noteq> [] \<and> outputConsole (use c s) = outputConsole s @ ls)
   \<and> player (use c s) = player s
   \<and> (rooms (use c s) = rooms s \<or> rooms (use c s) = unblock_east (rooms s)
        \<or> rooms (use c s) = unblock_north (rooms s))"
proof -
  define h where "h = (case elem (split_sp c) 0 of None \<Rightarrow> False
              | Some i \<Rightarrow> i \<in> set (inventory (player s)))"
  define k where "k = (elem (split_sp c) 0 = Some ''key'' \<and> elem (split_sp c) 2 = Some ''door''
              \<and> currentRoom (player s) = Str ''hallway'')"
  define w where "w = (elem (split_sp c) 0 = Some ''sword'' \<and> elem (split_sp c) 2 = Some ''door''
              \<and> currentRoom (player s) = Str ''cell'')"
  note u = use_cases [of c s, folded h_def k_def w_def]
  show ?thesis
    unfolding u by (cases h; cases k; cases w) (simp_all add: unblock_east_def unblock_north_def)
qed

lemma switch_verb_cases:
  assumes "switch_verb verb noun s = Inr s'"
  shows "look s = Inr s' \<or> move noun s = Inr s' \<or> take noun s = Inr s'
       \<or> ((verb = Some ''examine'' \<or> verb = Some ''x'') \<and> examine noun s = Inr s')
       \<or> showInventory s = Inr s' \<or> s' = use noun s
       \<or> s' = print (Str ''I don't understand that command.'') ''text-red-400'' s"
proof -
  define a where "a = (verb = Some ''look'' \<or> verb = Some ''l'')"
  define b where "b = (verb = Some ''go'' \<or> verb = Some ''move'')"
  define c where "c = (verb = Some ''take'' \<or> verb = Some ''get'')"
  define d where "d = (verb = Some ''examine'' \<or> verb = Some ''x'')"
  define e where "e = (verb = Some ''inventory'' \<or> verb = Some ''i'')"
  define f where "f = (verb = Some ''use'')"
  note sw = switch_verb_def [of verb noun s, folded a_def b_def c_def d_def e_def f_def]
  show ?thesis
    using assms unfolding sw d_def [symmetric]
    by (cases a; cases b; cases c; cases d; cases e; cases f) simp_all
qed

lemma switch_verb_effect:
  assumes "switch_verb verb noun s = Inr s'"
  shows "(\<exists>ls. ls \<noteq> [] \<and> outputConsole s' = outputConsole s @ ls)
       \<and> ((player s' = player s \<and> rooms s' = rooms s)
           \<or> (rooms s' = rooms s \<and> inventory (player s') = inventory (player s)
                \<and> (\<exists>room'. current_room s' = Inr room'))
           \<or> (\<exists>room it. current_room s = Inr room \<and> noun \<in> set (items room)
                 \<and> items_get noun = Own it \<and> canTake it
                 \<and> currentRoom (player s') = currentRoom (player s)
                 \<and> inventory (player s') = inventory (player s) @ [noun]
                 \<and> rooms s' = rooms_put (rooms s) (currentRoom (player s))
                                (room\<lparr>items := filter (\<lambda>i. i \<noteq> noun) (items room)\<rparr>))
           \<or> ((verb = Some ''examine'' \<or> verb = Some ''x'') \<and> noun = ''stone''
                \<and> ''key'' \<notin> set (inventory (player s))
                \<and> ''key'' \<notin> set (items (cell (rooms s)))
                \<and> player s' = player s \<and> rooms s' = reveal_key (rooms s))
           \<or> (player s' = player s \<and> rooms s' = unblock_east (rooms s))
           \<or> (player s' = player s \<and> rooms s' = unblock_north (rooms s)))"
proof -
  consider (look) "look s = Inr s'"
    | (move) "move noun s = Inr s'"
    | (take) "take noun s = Inr s'"
    | (examine) "verb = Some ''examine'' \<or> verb = Some ''x''" "examine noun s = Inr s'"
    | (inventory) "showInventory s = Inr s'"
    | (use) "s' = use noun s"
    | (other) "s' = print (Str ''I don't understand that command.'') ''text-red-400'' s"
    using switch_verb_cases [OF assms] by blast
  then show ?thesis
  proof cases
    case look
    from look_effect [OF this] show ?thesis by blast
  next
    case move
    note m = move_effect [OF this]
    show ?thesis
    proof (cases "currentRoom (player s') = currentRoom (player s)")
      case True
      then have "player s' = player s" using m by (intro player_obj.equality) simp_all
      then show ?thesis using m by blast
    next
      case False
      then obtain room' where "current_room s' = Inr room'" using m by blast
      then show ?thesis using m by blast
    qed
  next
    case take
    from take_effect [OF this] show ?thesis by blast
  next
    case examine
    from examine_effect [OF examine(2)] examine(1) show ?thesis by blast
  next
    case inventory
    from showInventory_effect [OF this] show ?thesis by blast
  next
    case use
    show ?thesis using use_effect [of noun s] unfolding use by blast
  next
    case other
    then show ?thesis by simp
  qed
qed

lemma submit_effect:
  assumes "submit v s = Inr s'"
  shows "(toLowerCase (trim v) = [] \<and> s' = s\<lparr>commandInput := v\<rparr>)
       \<or> (toLowerCase (trim v) \<noteq> []
           \<and> (\<exists>ls. ls \<noteq> [] \<and> outputConsole s' = outputConsole s
                  @ (Str (''> '' @ toLowerCase (trim v)), ''text-gray-500'') # ls)
           \<and> ((player s' = player s \<and> rooms s' = rooms s)
               \<or> (rooms s' = rooms s \<and> inventory (player s') = inventory (player s)
                    \<and> (\<exists>room'. current_room s' = Inr room'))
               \<or> (\<exists>room n it. current_room s = Inr room \<and> n \<in> set (items room)
                     \<and> items_get n = Own it \<and> canTake it
                     \<and> currentRoom (player s') = currentRoom (player s)
                     \<and> inventory (player s') = inventory (player s) @ [n]
                     \<and> rooms s' = rooms_put (rooms s) (currentRoom (player s))
                                    (room\<lparr>items := filter (\<lambda>i. i \<noteq> n) (items room)\<rparr>))
               \<or> (examines_stone v
                    \<and> ''key'' \<notin> set (inventory (player s))
                    \<and> ''key'' \<notin> set (items (cell (rooms s)))
                    \<and> player s' = player s \<and> rooms s' = reveal_key (rooms s))
               \<or> (player s' = player s \<and> rooms s' = unblock_east (rooms s))
               \<or> (player s' = player s \<and> rooms s' = unblock_north (rooms s))))"
proof (cases "toLowerCase (trim v) = []")
  case True
  then show ?thesis using assms by (simp add: submit_def processCommand_cases)
next
  case False
  define t where "t = toLowerCase (trim v)"
  define s1 where "s1 = (print (Str (''> '' @ t)) ''text-gray-500'' (s\<lparr>commandInput := v\<rparr>))
                \<lparr>commandInput := []\<rparr>"
  have sw: "switch_verb (fst (parse t)) (snd (parse t)) s1 = Inr s'"
    using assms False by (simp add: submit_def processCommand_cases t_def s1_def)
  have s1: "player s1 = player s" "rooms s1 = rooms s"
    "outputConsole s1 = outputConsole s @ [(Str (''> '' @ t), ''text-gray-500'')]"
    by (simp_all add: s1_def)
  have c1: "current_room s1 = current_room s"
    by (rule current_room_cong) (simp_all add: s1)
  have ex: "examines_stone v"
    if "fst (parse t) = Some ''examine'' \<or> fst (parse t) = Some ''x''" "snd (parse t) = ''stone''"
    using that unfolding examines_stone_def t_def [symmetric] by (cases "parse t") auto
  show ?thesis
    using switch_verb_effect [OF sw] False ex
    unfolding s1 c1 t_def [symmetric]
    by (elim conjE disjE exE) (simp; blast)+
qed

section \<open>The data stays well formed and no action faults\<close>

lemma well_formed_cong:
  "player s' = player s \<Longrightarrow> rooms s' = rooms s \<Longrightarrow> well_formed s' = well_formed s"
  by (simp add: well_formed_def locations_def)

lemma taken_rooms:
  assumes "current_room s = Inr room"
    and "r' = rooms_put (rooms s) (currentRoom (player s)) (room\<lparr>items := xs\<rparr>)"
  shows "(currentRoom (player s) = Str ''cell''
            \<and> room = cell (rooms s) \<and> r' = (rooms s)\<lparr>cell := (cell (rooms s))\<lparr>items := xs\<rparr>\<rparr>)
       \<or> (currentRoom (player s) = Str ''hallway''
            \<and> room = hallway (rooms s) \<and> r' = (rooms s)\<lparr>hallway := (hallway (rooms s))\<lparr>items := xs\<rparr>\<rparr>)
       \<or> (currentRoom (player s) = Str ''armory''
            \<and> room = armory (rooms s) \<and> r' = (rooms s)\<lparr>armory := (armory (rooms s))\<lparr>items := xs\<rparr>\<rparr>)"
  using current_room_key [OF assms(1)] assms by auto

lemma well_formed_moved:
  assumes "well_formed s" and "rooms s' = rooms s"
    and "inventory (player s') = inventory (player s)" and "current_room s' = Inr room'"
  shows "well_formed s'"
  using assms(1-3) current_room_key [OF assms(4)]
  by (simp add: well_formed_def locations_def)

lemma well_formed_taken:
  assumes "well_formed s" and "current_room s = Inr room" and "n \<in> set (items room)"
    and "currentRoom (player s') = currentRoom (player s)"
    and "inventory (player s') = inventory (player s) @ [n]"
    and "rooms s' = rooms_put (rooms s) (currentRoom (player s))
                      (room\<lparr>items := filter (\<lambda>i. i \<noteq> n) (items room)\<rparr>)"
  shows "well_formed s'"
  using taken_rooms [OF assms(2,6)] assms(1,3,4,5)
  by (elim disjE conjE) (auto simp: well_formed_def locations_def)

lemma well_formed_revealed:
  assumes "well_formed s" and "player s' = player s" and "rooms s' = reveal_key (rooms s)"
  shows "well_formed s'"
  using assms by (auto simp: well_formed_def locations_def reveal_key_def items_table_def)

lemma set_delete_subset: "set (AList.delete k al) \<subseteq> set al"
  by (auto simp: AList.delete_eq)

lemma well_formed_unblocked:
  assumes "well_formed s" and "player s' = player s"
    and "rooms s' = unblock_east (rooms s) \<or> rooms s' = unblock_north (rooms s)"
  shows "well_formed s'"
proof -
  have e: "set (AList.delete ''east'' (blockedExits (hallway (rooms s))))
             \<subseteq> set (blockedExits (hallway initial_rooms))"
    using assms(1) set_delete_subset [of "''east''" "blockedExits (hallway (rooms s))"]
    unfolding well_formed_def by blast
  have n: "set (AList.delete ''north'' (blockedExits (cell (rooms s))))
             \<subseteq> set (blockedExits (cell initial_rooms))"
    using assms(1) set_delete_subset [of "''north''" "blockedExits (cell (rooms s))"]
    unfolding well_formed_def by blast
  from assms(3) show ?thesis
  proof
    assume "rooms s' = unblock_east (rooms s)"
    then show ?thesis using assms(1,2) e
      by (simp add: well_formed_def locations_def unblock_east_def)
  next
    assume "rooms s' = unblock_north (rooms s)"
    then show ?thesis using assms(1,2) n
      by (simp add: well_formed_def locations_def unblock_north_def)
  qed
qed

lemma well_formed_submit:
  assumes "well_formed s" and "submit v s = Inr s'"
  shows "well_formed s'"
  using submit_effect [OF assms(2)]
proof (elim disjE conjE exE)
  assume "s' = s\<lparr>commandInput := v\<rparr>"
  then show ?thesis using assms(1) well_formed_cong [of s' s] by simp
next
  assume "player s' = player s" "rooms s' = rooms s"
  then show ?thesis using assms(1) well_formed_cong by blast
next
  fix room' assume "rooms s' = rooms s" "inventory (player s') = inventory (player s)"
    "current_room s' = Inr room'"
  then show ?thesis using assms(1) well_formed_moved by blast
next
  fix room n it
  assume "current_room s = Inr room" "n \<in> set (items room)"
    "currentRoom (player s') = currentRoom (player s)"
    "inventory (player s') = inventory (player s) @ [n]"
    "rooms s' = rooms_put (rooms s) (currentRoom (player s))
                  (room\<lparr>items := filter (\<lambda>i. i \<noteq> n) (items room)\<rparr>)"
  then show ?thesis using assms(1) well_formed_taken by blast
next
  assume "player s' = player s" "rooms s' = reveal_key (rooms s)"
  then show ?thesis using assms(1) well_formed_revealed by blast
next
  assume "player s' = player s" "rooms s' = unblock_east (rooms s)"
  then show ?thesis using assms(1) well_formed_unblocked by blast
next
  assume "player s' = player s" "rooms s' = unblock_north (rooms s)"
  then show ?thesis using assms(1) well_formed_unblocked by blast
qed

lemma well_formed_initial: "well_formed (initial_state sb ia out v)"
  by (simp add: well_formed_def locations_def initial_state_def initial_rooms_def items_table_def)

lemma well_formed_startGame:
  assumes "well_formed s" and "startGame s = Inr s'"
  shows "well_formed s'"
proof -
  have "player s' = player s" "rooms s' = rooms s"
    using assms(2) by (auto simp: startGame_def look_def print_def split: sum.splits)
  then show ?thesis using assms(1) well_formed_cong by blast
qed

lemma reachable_well_formed: "reachable s \<Longrightarrow> well_formed s"
  by (induction rule: reachable.induct)
    (auto intro: well_formed_initial well_formed_startGame well_formed_submit)

lemma well_formed_current_room:
  assumes "well_formed s"
  shows "\<exists>room. current_room s = Inr room \<and> set (items room) \<subseteq> set (map fst items_table)"
  using assms by (auto simp: well_formed_def locations_def)

lemma look_ok: "well_formed s \<Longrightarrow> \<exists>s'. look s = Inr s'"
  using well_formed_current_room [of s] by (auto simp: look_def)

lemma getprop_not_own:
  assumes "set bl \<subseteq> set al" and "map_of al d = None"
  shows "getprop bl d = (if d \<in> set object_prototype_keys then Builtin d else Undefined)"
proof -
  have "map_of bl d = None"
  proof (rule ccontr)
    assume "map_of bl d \<noteq> None"
    then obtain v where "map_of bl d = Some v" by blast
    then have "(d, v) \<in> set al" using assms(1) map_of_SomeD by fastforce
    then have "d \<in> fst ` set al" by force
    then show False using assms(2) by (simp add: map_of_eq_None_iff)
  qed
  then show ?thesis by (simp add: getprop_def)
qed

lemma move_target:
  assumes "well_formed s" and "current_room s = Inr room"
    and "truthy (getprop (exits room) d)" and "\<not> truthy (getprop (blockedExits room) d)"
  shows "getprop (exits room) d \<in> {Str ''cell'', Str ''hallway'', Str ''armory''}"
proof -
  consider (cell) "currentRoom (player s) = Str ''cell''"
    | (hallway) "currentRoom (player s) = Str ''hallway''"
    | (armory) "currentRoom (player s) = Str ''armory''"
    using current_room_key [OF assms(2)] by blast
  then show ?thesis
  proof cases
    case cell
    then have r: "room = cell (rooms s)" using assms(2) by simp
    have e: "exits room = [(''north'', ''hallway'')]"
      and b: "set (blockedExits room) \<subseteq> set [(''north'', ''The door is barred from the other side.'')]"
      using assms(1) by (simp_all add: r well_formed_def initial_rooms_def)
    show ?thesis
    proof (cases "d = ''north''")
      case True
      then show ?thesis by (simp add: e getprop_def)
    next
      case False
      then have "getprop (blockedExits room) d = getprop (exits room) d"
        using getprop_not_own [OF b, of d] by (simp add: e getprop_def)
      then show ?thesis using assms(3,4) by simp
    qed
  next
    case hallway
    then have r: "room = hallway (rooms s)" using assms(2) by simp
    have e: "exits room = [(''south'', ''cell''), (''east'', ''armory'')]"
      and b: "set (blockedExits room) \<subseteq> set [(''east'', ''The door is locked.'')]"
      using assms(1) by (simp_all add: r well_formed_def initial_rooms_def)
    show ?thesis
    proof (cases "d = ''south'' \<or> d = ''east''")
      case True
      then show ?thesis by (auto simp: e getprop_def)
    next
      case False
      then have "getprop (blockedExits room) d = getprop (exits room) d"
        using getprop_not_own [OF b, of d] by (simp add: e getprop_def)
      then show ?thesis using assms(3,4) by simp
    qed
  next
    case armory
    then have r: "room = armory (rooms s)" using assms(2) by simp
    have e: "exits room = [(''west'', ''hallway'')]"
      and b: "set (blockedExits room) \<subseteq> set []"
      using assms(1) by (simp_all add: r well_formed_def initial_rooms_def)
    show ?thesis
    proof (cases "d = ''west''")
      case True
      then show ?thesis by (simp add: e getprop_def)
    next
      case False
      then have "getprop (blockedExits room) d = getprop (exits room) d"
        using getprop_not_own [OF b, of d] by (simp add: e getprop_def)
      then show ?thesis using assms(3,4) by simp
    qed
  qed
qed

lemma move_ok:
  assumes "well_formed s"
  shows "\<exists>s'. move d s = Inr s'"
proof -
  obtain room where room: "current_room s = Inr room"
    using well_formed_current_room [OF assms] by blast
  show ?thesis
  proof (cases "truthy (getprop (exits room) d) \<and> \<not> truthy (getprop (blockedExits room) d)")
    case False
    then show ?thesis using room by (auto simp: move_def)
  next
    case True
    define s1 where "s1 = s\<lparr>player := (player s)\<lparr>currentRoom := getprop (exits room) d\<rparr>\<rparr>"
    have "currentRoom (player s1) \<in> {Str ''cell'', Str ''hallway'', Str ''armory''}"
      using move_target [OF assms room] True by (simp add: s1_def)
    then have "\<exists>room'. current_room s1 = Inr room'" by auto
    then have "\<exists>s'. look s1 = Inr s'" by (auto simp: look_def)
    then show ?thesis using room True by (simp add: move_def s1_def)
  qed
qed

lemma take_ok:
  assumes "well_formed s"
  shows "\<exists>s'. take n s = Inr s'"
proof -
  obtain room where room: "current_room s = Inr room"
      "set (items room) \<subseteq> set (map fst items_table)"
    using well_formed_current_room [OF assms] by blast
  show ?thesis
  proof (cases "n \<in> set (items room)")
    case True
    then obtain it where "items_get n = Own it" using room(2) items_get_table by blast
    then show ?thesis using room(1) by (simp add: take_def)
  next
    case False
    then show ?thesis using room(1) by (simp add: take_def)
  qed
qed

lemma examine_ok:
  assumes "well_formed s"
  shows "\<exists>s'. examine n s = Inr s'"
proof -
  obtain room where room: "current_room s = Inr room"
      "set (items room) \<subseteq> set (map fst items_table)"
    using well_formed_current_room [OF assms] by blast
  have held: "set (inventory (player s)) \<subseteq> set (map fst items_table)"
    using assms by (simp add: well_formed_def locations_def)
  show ?thesis
  proof (cases "n \<in> set (items room) \<or> n \<in> set (inventory (player s))")
    case True
    then obtain it where "items_get n = Own it" using room(2) held items_get_table by blast
    then show ?thesis using room(1)
      by (cases "onExamine it") (auto simp: examine_def split: prod.splits)
  next
    case False
    then show ?thesis using room(1) by (simp add: examine_def)
  qed
qed

lemma print_carried_ok:
  "set xs \<subseteq> set (map fst items_table) \<Longrightarrow> \<exists>s'. print_carried xs s = Inr s'"
proof (induction xs arbitrary: s)
  case Nil
  show ?case by simp
next
  case (Cons x xs)
  then obtain it where "items_get x = Own it" using items_get_table [of x] by auto
  then show ?case using Cons by simp
qed

lemma showInventory_ok:
  assumes "well_formed s"
  shows "\<exists>s'. showInventory s = Inr s'"
proof -
  have "set (inventory (player s)) \<subseteq> set (map fst items_table)"
    using assms by (simp add: well_formed_def locations_def)
  then show ?thesis by (simp add: showInventory_def print_carried_ok)
qed

lemma switch_verb_ok:
  assumes "well_formed s"
  shows "\<exists>s'. switch_verb verb noun s = Inr s'"
  using look_ok [OF assms] move_ok [OF assms, of noun] take_ok [OF assms, of noun]
    examine_ok [OF assms, of noun] showInventory_ok [OF assms]
  by (simp add: switch_verb_def)

lemma submit_ok:
  assumes "well_formed s"
  shows "\<exists>s'. submit v s = Inr s'"
proof -
  have "well_formed ((print t c (s\<lparr>commandInput := v\<rparr>))\<lparr>commandInput := []\<rparr>)" for t c
    using assms well_formed_cong [of "(print t c (s\<lparr>commandInput := v\<rparr>))\<lparr>commandInput := []\<rparr>" s]
    by simp
  then show ?thesis
    by (simp add: submit_def processCommand_cases switch_verb_ok)
qed

lemma processCommand_submit: "processCommand s = submit (commandInput s) s"
  by (simp add: submit_def)

text \<open>
  Every state the game can reach is well formed, and in a well-formed state
  processCommand returns a state, not a fault, whatever the command input holds: blank
  input, an unknown verb, a noun that names nothing, a use command of any length. The
  state returned is well formed again, so the next input is safe too. For input that is
  blank after trimming the state is returned as it is; for any other input the console
  gets the echo line and at least one more line.
\<close>

lemma processCommand_never_faults:
  "(reachable s \<longrightarrow> well_formed s)
   \<and> (well_formed s \<longrightarrow>
        (\<exists>s'. processCommand s = Inr s' \<and> well_formed s'
           \<and> (if toLowerCase (trim (commandInput s)) = [] then s' = s
               else \<exists>ls. ls \<noteq> [] \<and> outputConsole s' = outputConsole s
                      @ (Str (''> '' @ toLowerCase (trim (commandInput s))), ''text-gray-500'')
                        # ls)))"
proof (intro conjI impI)
  assume "reachable s"
  then show "well_formed s" by (rule reachable_well_formed)
next
  assume wf: "well_formed s"
  obtain s' where s': "submit (commandInput s) s = Inr s'"
    using submit_ok [OF wf] by blast
  have "well_formed s'" using wf s' by (rule well_formed_submit)
  moreover have "if toLowerCase (trim (commandInput s)) = [] then s' = s
               else \<exists>ls. ls \<noteq> [] \<and> outputConsole s' = outputConsole s
                      @ (Str (''> '' @ toLowerCase (trim (commandInput s))), ''text-gray-500'')
                        # ls"
    using submit_effect [OF s'] by auto
  ultimately show "\<exists>s'. processCommand s = Inr s' \<and> well_formed s'
           \<and> (if toLowerCase (trim (commandInput s)) = [] then s' = s
               else \<exists>ls. ls \<noteq> [] \<and> outputConsole s' = outputConsole s
                      @ (Str (''> '' @ toLowerCase (trim (commandInput s))), ''text-gray-500'')
                        # ls)"
    using s' by (auto simp: processCommand_submit)
qed

section \<open>Where the items are\<close>

lemma locations_cong:
  "player s' = player s \<Longrightarrow> rooms s' = rooms s \<Longrightarrow> locations s' = locations s"
  by (simp add: locations_def)

lemma unique_taken:
  assumes "distinct (locations s)" and "current_room s = Inr room" and "n \<in> set (items room)"
    and "inventory (player s') = inventory (player s) @ [n]"
    and "rooms s' = rooms_put (rooms s) (currentRoom (player s))
                      (room\<lparr>items := filter (\<lambda>i. i \<noteq> n) (items room)\<rparr>)"
  shows "distinct (locations s')"
    and "set (items (hallway (rooms s'))) \<subseteq> set (items (hallway (rooms s)))"
    and "set (items (armory (rooms s'))) \<subseteq> set (items (armory (rooms s)))"
    and "set (locations s') = set (locations s)"
    and "''key'' \<in> set (items (cell (rooms s))) \<Longrightarrow>
           ''key'' \<in> set (items (cell (rooms s'))) \<or> ''key'' \<in> set (inventory (player s'))"
  using taken_rooms [OF assms(2,5)] assms(1,3,4)
  by (elim disjE conjE; auto simp: locations_def)+

lemma unique_submit:
  assumes "distinct (locations s)"
    and "''key'' \<notin> set (items (hallway (rooms s)))"
    and "''key'' \<notin> set (items (armory (rooms s)))"
    and "submit v s = Inr s'"
  shows "distinct (locations s') \<and> ''key'' \<notin> set (items (hallway (rooms s')))
       \<and> ''key'' \<notin> set (items (armory (rooms s')))"
  using submit_effect [OF assms(4)]
proof (elim disjE conjE exE)
  assume "s' = s\<lparr>commandInput := v\<rparr>"
  then show ?thesis using assms(1-3) by (simp add: locations_def)
next
  assume "player s' = player s" "rooms s' = rooms s"
  then show ?thesis using assms(1-3) by (simp add: locations_def)
next
  fix room' assume "rooms s' = rooms s" "inventory (player s') = inventory (player s)"
  then show ?thesis using assms(1-3) by (simp add: locations_def)
next
  fix room n it
  assume t: "current_room s = Inr room" "n \<in> set (items room)"
    "inventory (player s') = inventory (player s) @ [n]"
    "rooms s' = rooms_put (rooms s) (currentRoom (player s))
                  (room\<lparr>items := filter (\<lambda>i. i \<noteq> n) (items room)\<rparr>)"
  show ?thesis
    using unique_taken(1-3) [OF assms(1) t] assms(2,3) by blast
next
  assume "''key'' \<notin> set (inventory (player s))" "''key'' \<notin> set (items (cell (rooms s)))"
    "player s' = player s" "rooms s' = reveal_key (rooms s)"
  then show ?thesis using assms(1-3) by (auto simp: locations_def reveal_key_def)
next
  assume "player s' = player s" "rooms s' = unblock_east (rooms s)"
  then show ?thesis using assms(1-3) by (simp add: locations_def unblock_east_def)
next
  assume "player s' = player s" "rooms s' = unblock_north (rooms s)"
  then show ?thesis using assms(1-3) by (simp add: locations_def unblock_north_def)
qed

lemma startGame_world:
  "startGame s = Inr s' \<Longrightarrow> player s' = player s \<and> rooms s' = rooms s"
  by (auto simp: startGame_def look_def print_def split: sum.splits)

lemma reachable_unique:
  "reachable s \<Longrightarrow>
     distinct (locations s) \<and> ''key'' \<notin> set (items (hallway (rooms s)))
     \<and> ''key'' \<notin> set (items (armory (rooms s)))"
proof (induction rule: reachable.induct)
  case (loaded sb ia out v)
  show ?case by (simp add: locations_def initial_state_def initial_rooms_def)
next
  case (started s s')
  then show ?case using startGame_world [of s s'] by (simp add: locations_def)
next
  case (submitted s v s')
  then show ?case using unique_submit [of s v s'] by blast
qed

lemma distinct_count_list: "distinct xs \<Longrightarrow> count_list xs i \<le> 1"
  by (induction xs) auto

text \<open>
  C9. In every state reachable from the loaded state by starting the game and
  submitting inputs, each item identifier occurs at most once in the three rooms' item
  lists and the inventory taken together: it is in one room, or in the inventory, or
  nowhere. Every input submitted in such a state, whichever action it runs, leads to a
  state where this holds again.
\<close>

theorem item_in_one_place:
  assumes "reachable s"
  shows "distinct (locations s)
       \<and> (\<forall>i. count_list (locations s) i \<le> 1)
       \<and> (\<forall>v s'. submit v s = Inr s' \<longrightarrow> distinct (locations s'))"
proof -
  have d: "distinct (locations s)" using reachable_unique [OF assms] by blast
  have "count_list (locations s) i \<le> 1" for i
    using d by (rule distinct_count_list)
  moreover have "distinct (locations s')" if "submit v s = Inr s'" for v s'
    using reachable_unique [OF reachable.submitted [OF assms that]] by blast
  ultimately show ?thesis using d by blast
qed

theorem item_in_one_place_witness:
  "reachable (initial_state False True [] [])
   \<and> distinct (locations (initial_state False True [] []))
   \<and> (\<exists>s'. submit ''examine stone'' (initial_state False True [] []) = Inr s'
         \<and> distinct (locations s'))"
proof -
  have r: "reachable (initial_state False True [] [])" by (rule reachable.loaded)
  have "case submit ''examine stone'' (initial_state False True [] []) of
          Inl e \<Rightarrow> False | Inr s' \<Rightarrow> True"
    by code_simp
  then obtain s' where "submit ''examine stone'' (initial_state False True [] []) = Inr s'"
    by (auto split: sum.splits)
  then show ?thesis using item_in_one_place [OF r] r by blast
qed

section \<open>The stone and the key\<close>

lemma items_get_stone:
  "items_get ''stone'' =
     Own \<lparr>item_name = ''Loose Stone'',
          item_description = ''A fist-sized stone. You notice a small, rusty key hidden in the cavity beneath it.'',
          canTake = False, onExamine = Some stone_onExamine\<rparr>"
  by (simp add: items_get_def items_table_def)

lemma examine_stone_result:
  assumes "current_room s = Inr room"
    and "''stone'' \<in> set (items room) \<or> ''stone'' \<in> set (inventory (player s))"
  shows "examine ''stone'' s =
     Inr (if ''key'' \<notin> set (inventory (player s)) \<and> ''key'' \<notin> set (items (cell (rooms s)))
          then print (Str ''You lift the stone and find a small, rusty key!'') ''text-green-400''
                 ((print (Str ''A fist-sized stone. You notice a small, rusty key hidden in the cavity beneath it.'') '''' s)
                    \<lparr>rooms := reveal_key (rooms s)\<rparr>)
          else print (Str ''It's just a stone. You already found the key that was under it.'')
                 ''text-green-400''
                 (print (Str ''A fist-sized stone. You notice a small, rusty key hidden in the cavity beneath it.'') '''' s))"
  using assms by (simp add: examine_def items_get_stone stone_onExamine_cases)

lemma taken_locations:
  assumes "current_room s = Inr room" and "n \<in> set (items room)"
    and "inventory (player s') = inventory (player s) @ [n]"
    and "rooms s' = rooms_put (rooms s) (currentRoom (player s))
                      (room\<lparr>items := filter (\<lambda>i. i \<noteq> n) (items room)\<rparr>)"
  shows "set (locations s') = set (locations s)"
    and "k \<in> set (items (cell (rooms s))) \<Longrightarrow>
           k \<in> set (items (cell (rooms s'))) \<or> k \<in> set (inventory (player s'))"
  using taken_rooms [OF assms(1,4)] assms(2,3)
  by (elim disjE conjE; auto simp: locations_def)+

lemma key_hidden_submit:
  assumes "''key'' \<notin> set (locations s)" and "\<not> examines_stone v" and "submit v s = Inr s'"
  shows "''key'' \<notin> set (locations s')"
  using submit_effect [OF assms(3)]
proof (elim disjE conjE exE)
  assume "s' = s\<lparr>commandInput := v\<rparr>"
  then show ?thesis using assms(1) by (simp add: locations_def)
next
  assume "player s' = player s" "rooms s' = rooms s"
  then show ?thesis using assms(1) by (simp add: locations_def)
next
  fix room' assume "rooms s' = rooms s" "inventory (player s') = inventory (player s)"
  then show ?thesis using assms(1) by (simp add: locations_def)
next
  fix room n it
  assume "current_room s = Inr room" "n \<in> set (items room)"
    "inventory (player s') = inventory (player s) @ [n]"
    "rooms s' = rooms_put (rooms s) (currentRoom (player s))
                  (room\<lparr>items := filter (\<lambda>i. i \<noteq> n) (items room)\<rparr>)"
  from taken_locations(1) [OF this] show ?thesis using assms(1) by simp
next
  assume "examines_stone v"
  then show ?thesis using assms(2) by simp
next
  assume "player s' = player s" "rooms s' = unblock_east (rooms s)"
  then show ?thesis using assms(1) by (simp add: locations_def unblock_east_def)
next
  assume "player s' = player s" "rooms s' = unblock_north (rooms s)"
  then show ?thesis using assms(1) by (simp add: locations_def unblock_north_def)
qed

lemma key_hidden_run:
  "\<forall>v \<in> set vs. \<not> examines_stone v \<Longrightarrow> ''key'' \<notin> set (locations s) \<Longrightarrow>
     run vs s = Inr s' \<Longrightarrow> ''key'' \<notin> set (locations s')"
proof (induction vs arbitrary: s)
  case Nil
  then show ?case by simp
next
  case (Cons v vs)
  then obtain s1 where s1: "submit v s = Inr s1" "run vs s1 = Inr s'"
    by (auto split: sum.splits)
  have "''key'' \<notin> set (locations s1)"
    using key_hidden_submit [OF Cons.prems(2) _ s1(1)] Cons.prems(1) by simp
  then show ?case using Cons.IH [OF _ _ s1(2)] Cons.prems(1) by simp
qed

lemma key_found_submit:
  assumes "''key'' \<in> set (inventory (player s)) \<or> ''key'' \<in> set (items (cell (rooms s)))"
    and "submit v s = Inr s'"
  shows "''key'' \<in> set (inventory (player s')) \<or> ''key'' \<in> set (items (cell (rooms s')))"
  using submit_effect [OF assms(2)]
proof (elim disjE conjE exE)
  assume "s' = s\<lparr>commandInput := v\<rparr>"
  then show ?thesis using assms(1) by simp
next
  assume "player s' = player s" "rooms s' = rooms s"
  then show ?thesis using assms(1) by simp
next
  fix room' assume "rooms s' = rooms s" "inventory (player s') = inventory (player s)"
  then show ?thesis using assms(1) by simp
next
  fix room n it
  assume t: "current_room s = Inr room" "n \<in> set (items room)"
    "inventory (player s') = inventory (player s) @ [n]"
    "rooms s' = rooms_put (rooms s) (currentRoom (player s))
                  (room\<lparr>items := filter (\<lambda>i. i \<noteq> n) (items room)\<rparr>)"
  show ?thesis using taken_locations(2) [OF t, of "''key''"] t(3) assms(1) by auto
next
  assume "player s' = player s" "rooms s' = reveal_key (rooms s)"
  then show ?thesis by (simp add: reveal_key_def)
next
  assume "player s' = player s" "rooms s' = unblock_east (rooms s)"
  then show ?thesis using assms(1) by (simp add: unblock_east_def)
next
  assume "player s' = player s" "rooms s' = unblock_north (rooms s)"
  then show ?thesis using assms(1) by (simp add: unblock_north_def)
qed

lemma key_found_run:
  "''key'' \<in> set (inventory (player s)) \<or> ''key'' \<in> set (items (cell (rooms s))) \<Longrightarrow>
     run vs s = Inr s' \<Longrightarrow>
     ''key'' \<in> set (inventory (player s')) \<or> ''key'' \<in> set (items (cell (rooms s')))"
proof (induction vs arbitrary: s)
  case Nil
  then show ?case by simp
next
  case (Cons v vs)
  then obtain s1 where s1: "submit v s = Inr s1" "run vs s1 = Inr s'"
    by (auto split: sum.splits)
  show ?case using Cons.IH [OF key_found_submit [OF Cons.prems(1) s1(1)] s1(2)] .
qed

text \<open>
  C6. The stone's examine effect reveals the key exactly once. In the loaded state, and
  after starting the game and any inputs none of which examines the stone, the key is in
  no room and not in the inventory. Examining the stone where it lies, while the key is
  neither in the inventory nor in the cell, prints the stone's description and the
  reveal line and appends the key to the cell's items, changing nothing else of the
  player or the rooms. From then on, whatever inputs follow and whether the key is still
  in the cell or has been taken, every examine of the stone prints the description and
  the other, fixed line and leaves the player and the rooms as they are.
\<close>

theorem stone_reveals_key_once:
  "''key'' \<notin> set (locations (initial_state sb ia out v0))
   \<and> ((\<forall>v \<in> set vs0. \<not> examines_stone v) \<and> startGame (initial_state sb ia out v0) = Inr s0
        \<and> run vs0 s0 = Inr s \<longrightarrow> ''key'' \<notin> set (locations s))
   \<and> (current_room s = Inr room \<and> ''stone'' \<in> set (items room)
        \<and> ''key'' \<notin> set (inventory (player s)) \<and> ''key'' \<notin> set (items (cell (rooms s))) \<longrightarrow>
        (\<exists>s1. examine ''stone'' s = Inr s1
           \<and> rooms s1 = reveal_key (rooms s)
           \<and> items (cell (rooms s1)) = items (cell (rooms s)) @ [''key'']
           \<and> player s1 = player s
           \<and> outputConsole s1 = outputConsole s @
                [(Str ''A fist-sized stone. You notice a small, rusty key hidden in the cavity beneath it.'', ''''),
                 (Str ''You lift the stone and find a small, rusty key!'', ''text-green-400'')]
           \<and> (\<forall>vs s2 room2. run vs s1 = Inr s2 \<and> current_room s2 = Inr room2
                  \<and> ''stone'' \<in> set (items room2) \<longrightarrow>
                  (\<exists>s3. examine ''stone'' s2 = Inr s3
                     \<and> rooms s3 = rooms s2 \<and> player s3 = player s2
                     \<and> outputConsole s3 = outputConsole s2 @
                          [(Str ''A fist-sized stone. You notice a small, rusty key hidden in the cavity beneath it.'', ''''),
                           (Str ''It's just a stone. You already found the key that was under it.'',
                            ''text-green-400'')]))))"
proof (intro conjI impI)
  show "''key'' \<notin> set (locations (initial_state sb ia out v0))"
    by (simp add: locations_def initial_state_def initial_rooms_def)
next
  assume a: "(\<forall>v \<in> set vs0. \<not> examines_stone v) \<and> startGame (initial_state sb ia out v0) = Inr s0
        \<and> run vs0 s0 = Inr s"
  have "player s0 = player (initial_state sb ia out v0)"
    "rooms s0 = rooms (initial_state sb ia out v0)"
    using a startGame_world [of "initial_state sb ia out v0" s0] by blast+
  then have "locations s0 = locations (initial_state sb ia out v0)"
    by (rule locations_cong)
  then have "''key'' \<notin> set (locations s0)"
    by (simp add: locations_def initial_state_def initial_rooms_def)
  then show "''key'' \<notin> set (locations s)"
    using a key_hidden_run [of vs0 s0 s] by blast
next
  assume a: "current_room s = Inr room \<and> ''stone'' \<in> set (items room)
        \<and> ''key'' \<notin> set (inventory (player s)) \<and> ''key'' \<notin> set (items (cell (rooms s)))"
  define s1 where "s1 = print (Str ''You lift the stone and find a small, rusty key!'') ''text-green-400''
                 ((print (Str ''A fist-sized stone. You notice a small, rusty key hidden in the cavity beneath it.'') '''' s)
                    \<lparr>rooms := reveal_key (rooms s)\<rparr>)"
  have e1: "examine ''stone'' s = Inr s1"
    using a examine_stone_result [of s room] by (simp add: s1_def)
  have found: "''key'' \<in> set (inventory (player s1)) \<or> ''key'' \<in> set (items (cell (rooms s1)))"
    by (simp add: s1_def reveal_key_def)
  have later: "\<exists>s3. examine ''stone'' s2 = Inr s3
                     \<and> rooms s3 = rooms s2 \<and> player s3 = player s2
                     \<and> outputConsole s3 = outputConsole s2 @
                          [(Str ''A fist-sized stone. You notice a small, rusty key hidden in the cavity beneath it.'', ''''),
                           (Str ''It's just a stone. You already found the key that was under it.'',
                            ''text-green-400'')]"
    if "run vs s1 = Inr s2 \<and> current_room s2 = Inr room2 \<and> ''stone'' \<in> set (items room2)"
    for vs s2 room2
  proof -
    have "''key'' \<in> set (inventory (player s2)) \<or> ''key'' \<in> set (items (cell (rooms s2)))"
      using key_found_run [OF found, of vs s2] that by blast
    then show ?thesis
      using that examine_stone_result [of s2 room2] by auto
  qed
  show "\<exists>s1. examine ''stone'' s = Inr s1
           \<and> rooms s1 = reveal_key (rooms s)
           \<and> items (cell (rooms s1)) = items (cell (rooms s)) @ [''key'']
           \<and> player s1 = player s
           \<and> outputConsole s1 = outputConsole s @
                [(Str ''A fist-sized stone. You notice a small, rusty key hidden in the cavity beneath it.'', ''''),
                 (Str ''You lift the stone and find a small, rusty key!'', ''text-green-400'')]
           \<and> (\<forall>vs s2 room2. run vs s1 = Inr s2 \<and> current_room s2 = Inr room2
                  \<and> ''stone'' \<in> set (items room2) \<longrightarrow>
                  (\<exists>s3. examine ''stone'' s2 = Inr s3
                     \<and> rooms s3 = rooms s2 \<and> player s3 = player s2
                     \<and> outputConsole s3 = outputConsole s2 @
                          [(Str ''A fist-sized stone. You notice a small, rusty key hidden in the cavity beneath it.'', ''''),
                           (Str ''It's just a stone. You already found the key that was under it.'',
                            ''text-green-400'')]))"
  proof (rule exI [of _ s1], intro conjI)
    show "examine ''stone'' s = Inr s1" by (rule e1)
    show "rooms s1 = reveal_key (rooms s)" by (simp add: s1_def)
    show "items (cell (rooms s1)) = items (cell (rooms s)) @ [''key'']"
      by (simp add: s1_def reveal_key_def)
    show "player s1 = player s" by (simp add: s1_def)
    show "outputConsole s1 = outputConsole s @
                [(Str ''A fist-sized stone. You notice a small, rusty key hidden in the cavity beneath it.'', ''''),
                 (Str ''You lift the stone and find a small, rusty key!'', ''text-green-400'')]"
      by (simp add: s1_def)
    show "\<forall>vs s2 room2. run vs s1 = Inr s2 \<and> current_room s2 = Inr room2
                  \<and> ''stone'' \<in> set (items room2) \<longrightarrow>
                  (\<exists>s3. examine ''stone'' s2 = Inr s3
                     \<and> rooms s3 = rooms s2 \<and> player s3 = player s2
                     \<and> outputConsole s3 = outputConsole s2 @
                          [(Str ''A fist-sized stone. You notice a small, rusty key hidden in the cavity beneath it.'', ''''),
                           (Str ''It's just a stone. You already found the key that was under it.'',
                            ''text-green-400'')])"
      using later by blast
  qed
qed

theorem stone_reveals_key_once_witness:
  "current_room (initial_state True False [] []) = Inr (cell initial_rooms)
   \<and> ''stone'' \<in> set (items (cell initial_rooms))
   \<and> ''key'' \<notin> set (inventory (player (initial_state True False [] [])))
   \<and> ''key'' \<notin> set (items (cell (rooms (initial_state True False [] []))))
   \<and> (\<exists>s1. examine ''stone'' (initial_state True False [] []) = Inr s1
         \<and> items (cell (rooms s1)) = [''stone'', ''key'']
         \<and> (\<exists>s3. examine ''stone'' s1 = Inr s3 \<and> rooms s3 = rooms s1))
   \<and> \<not> examines_stone ''look'' \<and> \<not> examines_stone ''take key''
   \<and> (\<exists>s0 s. startGame (initial_state False True [] []) = Inr s0
         \<and> run [''look'', ''take key''] s0 = Inr s \<and> ''key'' \<notin> set (locations s))"
proof -
  let ?S = "initial_state True False [] []"
  have a: "current_room ?S = Inr (cell initial_rooms)"
    by (simp add: initial_state_def)
  have b: "''stone'' \<in> set (items (cell initial_rooms))"
    by (simp add: initial_rooms_def)
  have c: "''key'' \<notin> set (inventory (player ?S))" "''key'' \<notin> set (items (cell (rooms ?S)))"
    by (simp_all add: initial_state_def initial_rooms_def)
  have i: "items (cell (rooms ?S)) = [''stone'']"
    by (simp add: initial_state_def initial_rooms_def)
  obtain s1 where s1: "examine ''stone'' ?S = Inr s1" "rooms s1 = reveal_key (rooms ?S)"
    "items (cell (rooms s1)) = items (cell (rooms ?S)) @ [''key'']" "player s1 = player ?S"
    and later: "\<And>vs s2 room2. run vs s1 = Inr s2 \<and> current_room s2 = Inr room2
                  \<and> ''stone'' \<in> set (items room2) \<Longrightarrow>
                  \<exists>s3. examine ''stone'' s2 = Inr s3 \<and> rooms s3 = rooms s2"
    using stone_reveals_key_once [of False True "[]" "[]" "[]" ?S ?S "cell initial_rooms"] a b c
    by blast
  have "current_room s1 = Inr (cell (rooms s1))"
    using s1(4) by (simp add: initial_state_def)
  moreover have "''stone'' \<in> set (items (cell (rooms s1)))"
    using s1(3) i by simp
  ultimately have again: "\<exists>s3. examine ''stone'' s1 = Inr s3 \<and> rooms s3 = rooms s1"
    using later [of "[]" s1 "cell (rooms s1)"] by simp
  have n: "\<forall>v \<in> set [''look'', ''take key'']. \<not> examines_stone v"
    by code_simp
  have "case startGame (initial_state False True [] []) of
          Inl e \<Rightarrow> False
        | Inr s0 \<Rightarrow> (case run [''look'', ''take key''] s0 of Inl e \<Rightarrow> False | Inr s \<Rightarrow> True)"
    by code_simp
  then obtain s0 s where r: "startGame (initial_state False True [] []) = Inr s0"
      "run [''look'', ''take key''] s0 = Inr s"
    by (auto split: sum.splits)
  have "''key'' \<notin> set (locations s)"
    using stone_reveals_key_once [of False True "[]" "[]" "[''look'', ''take key'']" s0 s] n r
    by blast
  moreover have "\<not> examines_stone ''look''" "\<not> examines_stone ''take key''"
    using n by simp_all
  ultimately show ?thesis using a b c s1(1,3) i again r by auto
qed

section \<open>The game as loaded stays in the cell\<close>


lemma barred_use:
  assumes "currentRoom (player s) = Str ''cell''" and "''sword'' \<notin> set (inventory (player s))"
  shows "rooms (use c s) = rooms s \<and> player (use c s) = player s
       \<and> gameRunning (use c s) = gameRunning s"
proof -
  define h where "h = (case elem (split_sp c) 0 of None \<Rightarrow> False
              | Some i \<Rightarrow> i \<in> set (inventory (player s)))"
  define k where "k = (elem (split_sp c) 0 = Some ''key'' \<and> elem (split_sp c) 2 = Some ''door''
              \<and> currentRoom (player s) = Str ''hallway'')"
  define w where "w = (elem (split_sp c) 0 = Some ''sword'' \<and> elem (split_sp c) 2 = Some ''door''
              \<and> currentRoom (player s) = Str ''cell'')"
  note u = use_cases [of c s, folded h_def k_def w_def]
  have nk: "\<not> k" using assms(1) by (simp add: k_def)
  have nw: "\<not> (h \<and> w)" using assms(2) by (auto simp: h_def w_def)
  show ?thesis
    unfolding u using nk nw by (cases h; cases w) simp_all
qed

lemma barred_move:
  assumes "currentRoom (player s) = Str ''cell''"
    and "exits (cell (rooms s)) = exits (cell initial_rooms)"
    and "blockedExits (cell (rooms s)) = blockedExits (cell initial_rooms)"
    and "move d s = Inr s'"
  shows "player s' = player s \<and> rooms s' = rooms s \<and> gameRunning s' = gameRunning s"
proof -
  have room: "current_room s = Inr (cell (rooms s))" using assms(1) by simp
  have "truthy (getprop (blockedExits (cell (rooms s))) d)"
    if "truthy (getprop (exits (cell (rooms s))) d)"
    using that unfolding assms(2,3)
    by (auto simp: initial_rooms_def getprop_def split: if_splits)
  then show ?thesis
    using assms(4) room by (auto simp: move_def split: if_splits)
qed

lemma barred_cong:
  "player s' = player s \<Longrightarrow> rooms s' = rooms s \<Longrightarrow> barred s' = barred s"
  by (simp add: barred_def)

lemma barred_switch_verb:
  assumes "barred s" and "switch_verb verb noun s = Inr s'"
  shows "barred s' \<and> gameRunning s' = gameRunning s"
proof -
  have b: "currentRoom (player s) = Str ''cell''"
    "exits (cell (rooms s)) = exits (cell initial_rooms)"
    "blockedExits (cell (rooms s)) = blockedExits (cell initial_rooms)"
    "''sword'' \<notin> set (inventory (player s))" "''sword'' \<notin> set (items (cell (rooms s)))"
    using assms(1) by (simp_all add: barred_def)
  have room: "current_room s = Inr (cell (rooms s))" using b(1) by simp
  consider (look) "look s = Inr s'"
    | (move) "move noun s = Inr s'"
    | (take) "take noun s = Inr s'"
    | (examine) "examine noun s = Inr s'"
    | (inventory) "showInventory s = Inr s'"
    | (use) "s' = use noun s"
    | (other) "s' = print (Str ''I don't understand that command.'') ''text-red-400'' s"
    using switch_verb_cases [OF assms(2)] by blast
  then show ?thesis
  proof cases
    case look
    then show ?thesis
      using look_effect [OF look] look_gameRunning [OF look] assms(1) barred_cong by blast
  next
    case move
    then show ?thesis
      using barred_move [OF b(1-3) move] assms(1) barred_cong by blast
  next
    case take
    note t = take_effect [OF take]
    have g: "gameRunning s' = gameRunning s" using take by (rule take_gameRunning)
    from t show ?thesis
    proof (elim conjE disjE exE)
      assume "player s' = player s" "rooms s' = rooms s"
      then show ?thesis using g assms(1) barred_cong by blast
    next
      fix room it
      assume a: "currentRoom (player s') = currentRoom (player s)"
        "current_room s = Inr room" "noun \<in> set (items room)"
        "inventory (player s') = inventory (player s) @ [noun]"
        "rooms s' = rooms_put (rooms s) (currentRoom (player s))
                      (room\<lparr>items := filter (\<lambda>i. i \<noteq> noun) (items room)\<rparr>)"
      have r: "room = cell (rooms s)" using a(2) room by simp
      have "noun \<noteq> ''sword''" using a(3) b(5) r by auto
      then show ?thesis using a b g by (simp add: barred_def r)
    qed
  next
    case examine
    note e = examine_effect [OF examine]
    have g: "gameRunning s' = gameRunning s" using examine by (rule examine_gameRunning)
    from e show ?thesis
    proof (elim conjE disjE)
      assume "player s' = player s" "rooms s' = rooms s"
      then show ?thesis using g assms(1) barred_cong by blast
    next
      assume "player s' = player s" "rooms s' = reveal_key (rooms s)"
      then show ?thesis using b g by (simp add: barred_def reveal_key_def)
    qed
  next
    case inventory
    then show ?thesis
      using showInventory_effect [OF inventory] showInventory_gameRunning [OF inventory]
        assms(1) barred_cong by blast
  next
    case use
    then show ?thesis
      using barred_use [OF b(1,4), of noun] assms(1) barred_cong by blast
  next
    case other
    then show ?thesis using assms(1) barred_cong [of s' s] by simp
  qed
qed

lemma barred_submit:
  assumes "barred s" and "submit v s = Inr s'"
  shows "barred s' \<and> gameRunning s' = gameRunning s"
proof (cases "toLowerCase (trim v) = []")
  case True
  then have "s' = s\<lparr>commandInput := v\<rparr>"
    using assms(2) by (simp add: submit_def processCommand_cases)
  then show ?thesis using assms(1) barred_cong [of s' s] by simp
next
  case False
  define t where "t = toLowerCase (trim v)"
  define s1 where "s1 = (print (Str (''> '' @ t)) ''text-gray-500'' (s\<lparr>commandInput := v\<rparr>))
                \<lparr>commandInput := []\<rparr>"
  have sw: "switch_verb (fst (parse t)) (snd (parse t)) s1 = Inr s'"
    using assms(2) False by (simp add: submit_def processCommand_cases t_def s1_def)
  have "barred s1" "gameRunning s1 = gameRunning s"
    using assms(1) barred_cong [of s1 s] by (simp_all add: s1_def)
  then show ?thesis using barred_switch_verb [OF _ sw] by simp
qed

lemma reachable_barred: "reachable s \<Longrightarrow> barred s"
proof (induction rule: reachable.induct)
  case (loaded sb ia out v)
  show ?case by (simp add: barred_def initial_state_def initial_rooms_def)
next
  case (started s s')
  then show ?case using startGame_world [of s s'] barred_cong by blast
next
  case (submitted s v s')
  then show ?case using barred_submit by blast
qed

lemma reachable_stays_in_cell:
  assumes "reachable s"
  shows "currentRoom (player s) = Str ''cell'' \<and> ''sword'' \<notin> set (inventory (player s))
       \<and> (\<forall>v s'. submit v s = Inr s' \<longrightarrow> gameRunning s' = gameRunning s)"
  using reachable_barred [OF assms] barred_submit [of s] by (auto simp: barred_def)

section \<open>The page and the session\<close>













lemma page_reachable_reachable: "page_reachable s \<Longrightarrow> reachable s"
proof (induction rule: page_reachable.induct)
  case (page_loaded sb out v)
  show ?case by (rule reachable.loaded)
next
  case (page_clicked s s')
  then show ?case
    by (cases "startButton_hidden s") (auto simp: click_start_def intro: reachable.started)
next
  case (page_entered s v s')
  then show ?case
    by (cases "inputArea_hidden s") (auto simp: enter_command_def intro: reachable.submitted)
qed





section \<open>What is printed\<close>

lemma text_added_refl: "outputConsole s' = outputConsole s \<Longrightarrow> text_added s s'"
  by (simp add: text_added_def)

lemma text_added_print: "text_added s s' \<Longrightarrow> text_added s (print (Str x) c s')"
  by (auto simp: text_added_def is_text_def)

lemma text_added_trans: "text_added s s1 \<Longrightarrow> text_added s1 s2 \<Longrightarrow> text_added s s2"
  by (auto simp: text_added_def)

lemma look_text: "look s = Inr s' \<Longrightarrow> text_added s s'"
  by (auto simp: look_def text_added_def is_text_def split: sum.splits)

lemma truthy_own_text:
  "truthy (getprop ob d) \<Longrightarrow> d \<notin> set object_prototype_keys \<Longrightarrow> \<exists>x. getprop ob d = Str x"
  by (auto simp: getprop_def split: option.splits)

lemma move_text:
  assumes "move d s = Inr s'" and "d \<notin> set object_prototype_keys"
  shows "text_added s s'"
proof (cases "current_room s")
  case (Inl e)
  then show ?thesis using assms by (simp add: move_def)
next
  case (Inr room)
  show ?thesis
  proof (cases "truthy (getprop (exits room) d)")
    case False
    then show ?thesis
      using assms Inr by (auto simp: move_def text_added_def is_text_def)
  next
    case True
    show ?thesis
    proof (cases "truthy (getprop (blockedExits room) d)")
      case b: True
      then obtain x where "getprop (blockedExits room) d = Str x"
        using truthy_own_text assms(2) by blast
      then show ?thesis
        using assms Inr True b by (auto simp: move_def text_added_def is_text_def)
    next
      case b: False
      define s1 where "s1 = s\<lparr>player := (player s)\<lparr>currentRoom := getprop (exits room) d\<rparr>\<rparr>"
      have "look s1 = Inr s'" using assms Inr True b by (simp add: move_def s1_def)
      then have "text_added s1 s'" by (rule look_text)
      moreover have "text_added s s1" by (rule text_added_refl) (simp add: s1_def)
      ultimately show ?thesis using text_added_trans by blast
    qed
  qed
qed

lemma take_text: "take n s = Inr s' \<Longrightarrow> text_added s s'"
proof (cases "current_room s")
  case (Inl e)
  assume "take n s = Inr s'"
  then show ?thesis using Inl by (simp add: take_def)
next
  case (Inr room)
  assume t: "take n s = Inr s'"
  show ?thesis
  proof (cases "items_get n")
    case (Own it)
    then show ?thesis using t Inr
      by (auto simp: take_def text_added_def is_text_def split: if_splits)
  next
    case (Inherited k)
    then show ?thesis using t Inr
      by (auto simp: take_def text_added_def is_text_def split: if_splits)
  next
    case Absent
    then show ?thesis using t Inr
      by (auto simp: take_def text_added_def is_text_def split: if_splits)
  qed
qed

lemma examine_text: "examine n s = Inr s' \<Longrightarrow> text_added s s'"
proof (cases "current_room s")
  case (Inl e)
  assume "examine n s = Inr s'"
  then show ?thesis using Inl by (simp add: examine_def)
next
  case (Inr room)
  assume t: "examine n s = Inr s'"
  show ?thesis
  proof (cases "items_get n")
    case (Own it)
    show ?thesis
    proof (cases "onExamine it")
      case None
      then show ?thesis using t Inr Own
        by (auto simp: examine_def text_added_def is_text_def split: if_splits)
    next
      case (Some f)
      then have f: "f = stone_onExamine" using Own onExamine_stone_only by blast
      show ?thesis using t Inr Own Some
        by (auto simp: examine_def f stone_onExamine_cases text_added_def is_text_def
            split: if_splits)
    qed
  next
    case (Inherited k)
    then show ?thesis using t Inr
      by (auto simp: examine_def text_added_def is_text_def split: if_splits)
  next
    case Absent
    then show ?thesis using t Inr
      by (auto simp: examine_def text_added_def is_text_def split: if_splits)
  qed
qed

lemma print_carried_text: "print_carried xs s = Inr s' \<Longrightarrow> text_added s s'"
proof (induction xs arbitrary: s)
  case Nil
  then show ?case by (simp add: text_added_refl)
next
  case (Cons x xs)
  then obtain it where it: "items_get x = Own it"
    and r: "print_carried xs (print (Str (''- '' @ item_name it)) '''' s) = Inr s'"
    by (auto split: lookup.splits)
  have "text_added s (print (Str (''- '' @ item_name it)) '''' s)"
    by (intro text_added_print text_added_refl) simp
  then show ?case using Cons.IH [OF r] text_added_trans by blast
qed

lemma showInventory_text: "showInventory s = Inr s' \<Longrightarrow> text_added s s'"
proof (cases "inventory (player s) = []")
  case True
  assume "showInventory s = Inr s'"
  then show ?thesis using True
    by (auto simp: showInventory_def text_added_def is_text_def)
next
  case False
  assume "showInventory s = Inr s'"
  then have "print_carried (inventory (player s)) (print (Str ''You are carrying:'') '''' s) = Inr s'"
    using False by (simp add: showInventory_def)
  then have "text_added (print (Str ''You are carrying:'') '''' s) s'" by (rule print_carried_text)
  moreover have "text_added s (print (Str ''You are carrying:'') '''' s)"
    by (intro text_added_print text_added_refl) simp
  ultimately show ?thesis using text_added_trans by blast
qed

lemma use_text: "text_added s (use c s)"
proof -
  define h where "h = (case elem (split_sp c) 0 of None \<Rightarrow> False
              | Some i \<Rightarrow> i \<in> set (inventory (player s)))"
  define k where "k = (elem (split_sp c) 0 = Some ''key'' \<and> elem (split_sp c) 2 = Some ''door''
              \<and> currentRoom (player s) = Str ''hallway'')"
  define w where "w = (elem (split_sp c) 0 = Some ''sword'' \<and> elem (split_sp c) 2 = Some ''door''
              \<and> currentRoom (player s) = Str ''cell'')"
  note u = use_cases [of c s, folded h_def k_def w_def]
  show ?thesis
    unfolding u by (cases h; cases k; cases w) (simp_all add: text_added_def is_text_def)
qed

lemma switch_verb_text:
  assumes "switch_verb verb noun s = Inr s'"
    and "\<not> ((verb = Some ''go'' \<or> verb = Some ''move'') \<and> noun \<in> set object_prototype_keys)"
  shows "text_added s s'"
proof -
  define a where "a = (verb = Some ''look'' \<or> verb = Some ''l'')"
  define b where "b = (verb = Some ''go'' \<or> verb = Some ''move'')"
  define c where "c = (verb = Some ''take'' \<or> verb = Some ''get'')"
  define d where "d = (verb = Some ''examine'' \<or> verb = Some ''x'')"
  define e where "e = (verb = Some ''inventory'' \<or> verb = Some ''i'')"
  define f where "f = (verb = Some ''use'')"
  note sw = switch_verb_def [of verb noun s, folded a_def b_def c_def d_def e_def f_def]
  have m: "b \<Longrightarrow> move noun s = Inr s' \<Longrightarrow> text_added s s'"
    using assms(2) move_text unfolding b_def by blast
  have o: "text_added s (print (Str ''I don't understand that command.'') ''text-red-400'' s)"
    by (intro text_added_print text_added_refl) simp
  show ?thesis
    using assms(1) m o look_text [of s s'] take_text [of noun s s'] examine_text [of noun s s']
      showInventory_text [of s s'] use_text [of s noun]
    unfolding sw
    by (cases a; cases b; cases c; cases d; cases e; cases f) auto
qed

lemma narration_is_text:
  assumes "processCommand s = Inr s'"
    and "toLowerCase (trim (commandInput s)) \<noteq> []"
    and "\<not> ((fst (parse (toLowerCase (trim (commandInput s)))) = Some ''go''
              \<or> fst (parse (toLowerCase (trim (commandInput s)))) = Some ''move'')
             \<and> snd (parse (toLowerCase (trim (commandInput s)))) \<in> set object_prototype_keys)"
  shows "\<exists>ls. ls \<noteq> [] \<and> list_all (\<lambda>l. is_text (fst l)) ls
           \<and> outputConsole s' = outputConsole s
                @ (Str (''> '' @ toLowerCase (trim (commandInput s))), ''text-gray-500'') # ls"
proof -
  define t where "t = toLowerCase (trim (commandInput s))"
  define s1 where "s1 = (print (Str (''> '' @ t)) ''text-gray-500'' s)\<lparr>commandInput := []\<rparr>"
  have sw: "switch_verb (fst (parse t)) (snd (parse t)) s1 = Inr s'"
    using assms(1,2) by (simp add: processCommand_cases t_def s1_def)
  have "text_added s1 s'"
    using switch_verb_text [OF sw] assms(3) unfolding t_def by blast
  then obtain ls where ls: "outputConsole s' = outputConsole s1 @ ls"
      "list_all (\<lambda>l. is_text (fst l)) ls"
    by (auto simp: text_added_def)
  obtain ls' where ls': "ls' \<noteq> []" "outputConsole s' = outputConsole s1 @ ls'"
    using switch_verb_effect [OF sw] by blast
  have "ls = ls'" using ls(1) ls'(2) by simp
  then show ?thesis using ls ls'(1) by (auto simp: s1_def t_def)
qed

lemma blocked_message_is_failure_line:
  assumes "well_formed s" and "current_room s = Inr room"
    and "map_of (blockedExits room) d = Some msg"
  shows "(Str msg, ''text-yellow-400'') \<in> set failure_lines"
proof -
  have m: "(d, msg) \<in> set (blockedExits room)" using assms(3) by (rule map_of_SomeD)
  have "set (blockedExits room) \<subseteq> set (blockedExits (cell initial_rooms))
          \<union> set (blockedExits (hallway initial_rooms)) \<union> set (blockedExits (armory initial_rooms))"
    using assms(1) current_room_key [OF assms(2)] assms(2)
    by (auto simp: well_formed_def)
  then have "msg = ''The door is barred from the other side.'' \<or> msg = ''The door is locked.''"
    using m by (auto simp: initial_rooms_def)
  then show ?thesis by (auto simp: failure_lines_def)
qed

text \<open>
  Away from the names of \<^verbatim>\<open>Object.prototype\<close>, move ends in a failure line of the
  taxonomy, the state otherwise unchanged, or in the destination room with its name and
  description.
\<close>

lemma move_outcome:
  assumes "well_formed s" and "d \<notin> set object_prototype_keys" and "move d s = Inr s'"
  shows "(\<exists>l \<in> set failure_lines. s' = print (fst l) (snd l) s)
       \<or> (\<exists>room dest room'. current_room s = Inr room \<and> map_of (exits room) d = Some dest
             \<and> map_of (blockedExits room) d = None
             \<and> rooms_get (rooms s) (Str dest) = Own room'
             \<and> s' = print (Str (description room')) ''''
                      (print (Str (name room')) ''text-cyan-400 text-lg''
                        (s\<lparr>player := (player s)\<lparr>currentRoom := Str dest\<rparr>\<rparr>)))"
proof -
  obtain room where room: "current_room s = Inr room"
    using well_formed_current_room [OF assms(1)] by blast
  show ?thesis
  proof (cases "map_of (exits room) d")
    case None
    then have "s' = print (Str ''You can't go that way.'') ''text-red-400'' s"
      using assms(2,3) room by (simp add: move_def getprop_none)
    then show ?thesis by (auto simp: failure_lines_def)
  next
    case (Some dest)
    have e: "getprop (exits room) d = Str dest" using Some by (rule getprop_own)
    show ?thesis
    proof (cases "map_of (blockedExits room) d")
      case b: (Some msg)
      have l: "(Str msg, ''text-yellow-400'') \<in> set failure_lines"
        using assms(1) room b by (rule blocked_message_is_failure_line)
      have bg: "getprop (blockedExits room) d = Str msg" using b by (rule getprop_own)
      have "s' = print (Str msg) ''text-yellow-400'' s
              \<or> s' = print (Str ''You can't go that way.'') ''text-red-400'' s"
        using assms(3) room e bg
        by (auto simp: move_def split: if_splits)
          (use l in \<open>auto simp: failure_lines_def\<close>)
      then show ?thesis using l by (auto simp: failure_lines_def)
    next
      case b: None
      have bg: "getprop (blockedExits room) d = Undefined"
        using b assms(2) by (rule getprop_none)
      show ?thesis
      proof (cases "dest = []")
        case True
        then have "s' = print (Str ''You can't go that way.'') ''text-red-400'' s"
          using assms(3) room e by (simp add: move_def)
        then show ?thesis by (auto simp: failure_lines_def)
      next
        case False
        define s1 where "s1 = s\<lparr>player := (player s)\<lparr>currentRoom := Str dest\<rparr>\<rparr>"
        have lk: "look s1 = Inr s'"
          using assms(3) room e bg False by (simp add: move_def s1_def)
        then obtain room' where r': "current_room s1 = Inr room'"
          "s' = print (Str (description room')) ''''
                      (print (Str (name room')) ''text-cyan-400 text-lg'' s1)"
          by (auto simp: look_def split: sum.splits)
        have "rooms_get (rooms s) (Str dest) = Own room'"
          using r'(1) by (simp add: current_room_def s1_def del: rooms_get.simps split: lookup.splits)
        then show ?thesis using room Some b r'(2) unfolding s1_def by blast
      qed
    qed
  qed
qed

text \<open>
  C3. Processing a command never faults (lemma \<open>processCommand_never_faults\<close>), but not
  every input ends in an outcome of the taxonomy. The input "go constructor", typed into
  the started game, is answered with one line whose content is not a text at all: it is
  the function that \<^verbatim>\<open>room.blockedExits[direction]\<close> inherits from
  \<^verbatim>\<open>Object.prototype\<close>, printed in the style of a blocking message, and it is none of
  the failure lines. The direction is not an exit of the cell, so the outcome due is
  "You can't go that way.".
\<close>

theorem inherited_direction_outcome:
  "(case startGame (initial_state False True [] []) of
      Inl e \<Rightarrow> False
    | Inr s0 \<Rightarrow>
        (case enter_command ''go constructor'' s0 of
           Inl e \<Rightarrow> False
         | Inr s' \<Rightarrow>
             outputConsole s' = outputConsole s0 @
               [(Str ''> go constructor'', ''text-gray-500''),
                (Builtin ''constructor'', ''text-yellow-400'')]
             \<and> \<not> is_text (Builtin ''constructor'')
             \<and> (Builtin ''constructor'', ''text-yellow-400'') \<notin> set failure_lines
             \<and> map_of (exits (cell (rooms s0))) ''constructor'' = None
             \<and> player s' = player s0 \<and> rooms s' = rooms s0))"
  by code_simp

end
